theory Spec2Isabelle
  imports Complex_Main "HOL-Library.Stream"
begin

section \<open>Floating-point values\<close>

text \<open>
  The sampler computes with numpy \<open>float64\<close> values. What the code tests about them
  (\<open>np.isfinite\<close>, comparisons that are false on NaN, \<open>-np.inf\<close> as a factor) depends on
  the special values, so a value is either a finite number or one of \<open>+inf\<close>, \<open>-inf\<close>,
  \<open>nan\<close>. Finite arithmetic is exact here: rounding, overflow to an infinity and the sign
  of zero are not modelled. The special values follow IEEE 754 as numpy applies it:
  NaN is absorbing, \<open>inf - inf\<close>, \<open>0 * inf\<close>, \<open>0 / 0\<close> and \<open>inf / inf\<close> are NaN, and
  every comparison with NaN is false.
\<close>

datatype float64 = Fin real | PInf | MInf | NaN

fun isfinite :: "float64 \<Rightarrow> bool" where
  "isfinite (Fin a) = True"
| "isfinite PInf = False"
| "isfinite MInf = False"
| "isfinite NaN = False"

instantiation float64 :: plus
begin
fun plus_float64 :: "float64 \<Rightarrow> float64 \<Rightarrow> float64" where
  "plus_float64 (Fin a) (Fin b) = Fin (a + b)"
| "plus_float64 (Fin a) PInf = PInf"
| "plus_float64 (Fin a) MInf = MInf"
| "plus_float64 PInf (Fin b) = PInf"
| "plus_float64 PInf PInf = PInf"
| "plus_float64 PInf MInf = NaN"
| "plus_float64 MInf (Fin b) = MInf"
| "plus_float64 MInf MInf = MInf"
| "plus_float64 MInf PInf = NaN"
| "plus_float64 NaN y = NaN"
| "plus_float64 x NaN = NaN"
instance ..
end

instantiation float64 :: uminus
begin
fun uminus_float64 :: "float64 \<Rightarrow> float64" where
  "uminus_float64 (Fin a) = Fin (- a)"
| "uminus_float64 PInf = MInf"
| "uminus_float64 MInf = PInf"
| "uminus_float64 NaN = NaN"
instance ..
end

instantiation float64 :: minus
begin
definition minus_float64 :: "float64 \<Rightarrow> float64 \<Rightarrow> float64" where
  "minus_float64 x y = x + (- y)"
instance ..
end

text \<open>The sign of a product or quotient with an infinity.\<close>

definition signed_inf :: "real \<Rightarrow> float64" where
  "signed_inf a = (if a = 0 then NaN else if 0 < a then PInf else MInf)"

instantiation float64 :: times
begin
fun times_float64 :: "float64 \<Rightarrow> float64 \<Rightarrow> float64" where
  "times_float64 (Fin a) (Fin b) = Fin (a * b)"
| "times_float64 (Fin a) PInf = signed_inf a"
| "times_float64 (Fin a) MInf = signed_inf (- a)"
| "times_float64 PInf (Fin b) = signed_inf b"
| "times_float64 MInf (Fin b) = signed_inf (- b)"
| "times_float64 PInf PInf = PInf"
| "times_float64 PInf MInf = MInf"
| "times_float64 MInf PInf = MInf"
| "times_float64 MInf MInf = PInf"
| "times_float64 NaN y = NaN"
| "times_float64 x NaN = NaN"
instance ..
end

instantiation float64 :: inverse
begin
fun divide_float64 :: "float64 \<Rightarrow> float64 \<Rightarrow> float64" where
  "divide_float64 (Fin a) (Fin b) = (if b = 0 then signed_inf a else Fin (a / b))"
| "divide_float64 (Fin a) PInf = Fin 0"
| "divide_float64 (Fin a) MInf = Fin 0"
| "divide_float64 PInf (Fin b) = (if 0 \<le> b then PInf else MInf)"
| "divide_float64 MInf (Fin b) = (if 0 \<le> b then MInf else PInf)"
| "divide_float64 PInf PInf = NaN"
| "divide_float64 PInf MInf = NaN"
| "divide_float64 MInf PInf = NaN"
| "divide_float64 MInf MInf = NaN"
| "divide_float64 NaN y = NaN"
| "divide_float64 x NaN = NaN"
fun inverse_float64 :: "float64 \<Rightarrow> float64" where
  "inverse_float64 (Fin a) = (if a = 0 then PInf else Fin (1 / a))"
| "inverse_float64 PInf = Fin 0"
| "inverse_float64 MInf = Fin 0"
| "inverse_float64 NaN = NaN"
instance ..
end

instantiation float64 :: ord
begin
fun less_float64 :: "float64 \<Rightarrow> float64 \<Rightarrow> bool" where
  "less_float64 (Fin a) (Fin b) = (a < b)"
| "less_float64 (Fin a) PInf = True"
| "less_float64 (Fin a) MInf = False"
| "less_float64 PInf y = False"
| "less_float64 MInf (Fin b) = True"
| "less_float64 MInf PInf = True"
| "less_float64 MInf MInf = False"
| "less_float64 NaN y = False"
| "less_float64 x NaN = False"
fun less_eq_float64 :: "float64 \<Rightarrow> float64 \<Rightarrow> bool" where
  "less_eq_float64 (Fin a) (Fin b) = (a \<le> b)"
| "less_eq_float64 (Fin a) PInf = True"
| "less_eq_float64 (Fin a) MInf = False"
| "less_eq_float64 PInf (Fin b) = False"
| "less_eq_float64 PInf PInf = True"
| "less_eq_float64 PInf MInf = False"
| "less_eq_float64 MInf (Fin b) = True"
| "less_eq_float64 MInf PInf = True"
| "less_eq_float64 MInf MInf = True"
| "less_eq_float64 NaN y = False"
| "less_eq_float64 x NaN = False"
instance ..
end

text \<open>\<open>np.log\<close>, \<open>np.exp\<close> and \<open>np.sqrt\<close> on the special values.\<close>

fun flog :: "float64 \<Rightarrow> float64" where
  "flog (Fin a) = (if a < 0 then NaN else if a = 0 then MInf else Fin (ln a))"
| "flog PInf = PInf"
| "flog MInf = NaN"
| "flog NaN = NaN"

fun fexp :: "float64 \<Rightarrow> float64" where
  "fexp (Fin a) = Fin (exp a)"
| "fexp PInf = PInf"
| "fexp MInf = Fin 0"
| "fexp NaN = NaN"

fun fsqrt :: "float64 \<Rightarrow> float64" where
  "fsqrt (Fin a) = (if a < 0 then NaN else Fin (sqrt a))"
| "fsqrt PInf = PInf"
| "fsqrt MInf = NaN"
| "fsqrt NaN = NaN"

subsection \<open>Vectors\<close>

text \<open>
  A one-dimensional array is a list. The arrays the moves combine all have the length
  \<open>ndim\<close> of the ensemble, so an elementwise operation is a \<open>map2\<close>; numpy's
  broadcasting of other shapes and its shape errors are outside the model.
\<close>

type_synonym vec = "float64 list"

definition vadd :: "vec \<Rightarrow> vec \<Rightarrow> vec" where
  "vadd xs ys = map2 (+) xs ys"

definition vsub :: "vec \<Rightarrow> vec \<Rightarrow> vec" where
  "vsub xs ys = map2 (-) xs ys"

definition vscale :: "float64 \<Rightarrow> vec \<Rightarrow> vec" where
  "vscale c xs = map ((*) c) xs"

definition vneg :: "vec \<Rightarrow> vec" where
  "vneg xs = map uminus xs"

definition vsum :: "vec \<Rightarrow> float64" where
  "vsum xs = foldl (+) (Fin 0) xs"

definition dot :: "vec \<Rightarrow> vec \<Rightarrow> float64" where
  "dot xs ys = vsum (map2 (*) xs ys)"

text \<open>\<open>np.linalg.norm\<close> of a vector: the Euclidean norm.\<close>

definition norm2 :: "vec \<Rightarrow> float64" where
  "norm2 xs = fsqrt (dot xs xs)"

section \<open>Errors\<close>

text \<open>The exceptions the modelled code raises, with the message where the source gives one.\<close>

datatype error =
    ValueError string
  | RuntimeError string
  | IndexError
  | TypeError
  | AttributeError
  | NameError
  | KeyError

section \<open>Numerical gradients (numgrad.py)\<close>

text \<open>
  The wrapped function \<open>f\<close> may raise; it does not write to its argument. The array \<open>x\<close>
  is mutated in place by the wrappers, so the model returns it next to the gradient.
  \<open>enumerate(x)\<close> reads \<open>x[i]\<close> when iteration \<open>i\<close> starts.
\<close>

fun ng1_loop :: "(vec \<Rightarrow> error + float64) \<Rightarrow> float64 \<Rightarrow> float64 \<Rightarrow> nat \<Rightarrow> nat
    \<Rightarrow> vec \<times> vec \<Rightarrow> error + vec \<times> vec" where
  "ng1_loop f eps y0 i 0 (x, g) = Inr (x, g)"
| "ng1_loop f eps y0 i (Suc k) (x, g) =
     (let v = x ! i;
          x1 = x[i := v + eps]
      in case f x1 of
           Inl e \<Rightarrow> Inl e
         | Inr y \<Rightarrow> ng1_loop f eps y0 (Suc i) k (x1[i := v], g[i := (y - y0) / eps]))"

definition numerical_gradient_1 :: "(vec \<Rightarrow> error + float64) \<Rightarrow> float64 \<Rightarrow> vec
    \<Rightarrow> error + vec \<times> vec" where
  "numerical_gradient_1 f eps x =
     (case f x of
        Inl e \<Rightarrow> Inl e
      | Inr y0 \<Rightarrow>
          (case ng1_loop f eps y0 0 (length x) (x, replicate (length x) (Fin 0)) of
             Inl e \<Rightarrow> Inl e
           | Inr (x', g) \<Rightarrow> Inr (g, x')))"

fun ng2_loop :: "(vec \<Rightarrow> error + float64) \<Rightarrow> float64 \<Rightarrow> nat \<Rightarrow> nat
    \<Rightarrow> vec \<times> vec \<Rightarrow> error + vec \<times> vec" where
  "ng2_loop f eps i 0 (x, g) = Inr (x, g)"
| "ng2_loop f eps i (Suc k) (x, g) =
     (let v = x ! i;
          x1 = x[i := v + eps]
      in case f x1 of
           Inl e \<Rightarrow> Inl e
         | Inr yp \<Rightarrow>
             (let x2 = x1[i := v - eps]
              in case f x2 of
                   Inl e \<Rightarrow> Inl e
                 | Inr ym \<Rightarrow>
                     ng2_loop f eps (Suc i) k
                       (x2[i := v], g[i := Fin (1/2) * (yp - ym) / eps])))"

definition numerical_gradient_2 :: "(vec \<Rightarrow> error + float64) \<Rightarrow> float64 \<Rightarrow> vec
    \<Rightarrow> error + vec \<times> vec" where
  "numerical_gradient_2 f eps x =
     (case ng2_loop f eps 0 (length x) (x, replicate (length x) (Fin 0)) of
        Inl e \<Rightarrow> Inl e
      | Inr (x', g) \<Rightarrow> Inr (g, x'))"

text \<open>The default step of both wrappers, \<open>eps=1.234e-7\<close>.\<close>

definition default_eps :: float64 where
  "default_eps = Fin (1234 / 10000000000)"

section \<open>Walker states\<close>

text \<open>
  One evaluated position of a walker: its coordinates, the two log-densities the model
  returned, and the flag a move sets when it accepts the state. ensemble.py and
  hmc.py read the densities as \<open>lnprior\<close>, \<open>lnlike\<close> and \<open>lnprob\<close>, mh.py and nuts.py
  read the sum as \<open>log_probability\<close>; the sum of the two is the log-probability.
  The moves attach further attributes, which extend the record.
\<close>

record state =
  coords :: vec
  lnprior :: float64
  lnlike :: float64
  accepted :: bool

definition lnprob :: "'a state_scheme \<Rightarrow> float64" where
  "lnprob s = lnprior s + lnlike s"

abbreviation log_probability :: "'a state_scheme \<Rightarrow> float64" where
  "log_probability \<equiv> lnprob"

subsection \<open>The random stream\<close>

text \<open>
  \<open>ensemble.random\<close> is a numpy \<open>RandomState\<close>. Each \<open>rand()\<close> takes the next
  element of a stream of draws from \<open>[0, 1)\<close>; the rest of the stream is the generator's
  new state. \<open>uniform(low, high)\<close> is \<open>low + (high - low) * rand()\<close>.
\<close>

type_synonym rng = "real stream"

definition rand :: "rng \<Rightarrow> float64 \<times> rng" where
  "rand g = (Fin (shd g), stl g)"

definition uniform :: "float64 \<Rightarrow> float64 \<Rightarrow> rng \<Rightarrow> float64 \<times> rng" where
  "uniform low high g = (low + (high - low) * Fin (shd g), stl g)"

section \<open>The ensemble (ensemble.py)\<close>

text \<open>
  The pool's \<open>map\<close> applies a function to each element in order; the first exception
  ends it.
\<close>

fun map_err :: "('a \<Rightarrow> error + 'b) \<Rightarrow> 'a list \<Rightarrow> error + 'b list" where
  "map_err f [] = Inr []"
| "map_err f (x # xs) =
     (case f x of
        Inl e \<Rightarrow> Inl e
      | Inr y \<Rightarrow> (case map_err f xs of Inl e \<Rightarrow> Inl e | Inr ys \<Rightarrow> Inr (y # ys)))"

text \<open>
  The \<open>coords\<close> argument of the constructor is any array-like value; what the
  constructor tests is its number of dimensions after \<open>np.atleast_1d\<close>. The rows of a
  two-dimensional array have one length, \<open>ndim\<close>.
\<close>

datatype array_like =
    Array0 float64
  | Array1 "float64 list"
  | Array2 "float64 list list"
  | Array3 "float64 list list list"

record 'w ensemble =
  walkers :: "'w list"
  e_coords :: "vec list"
  e_lnprior :: "float64 list"
  e_lnlike :: "float64 list"
  acceptance :: "bool list"
  nwalkers :: nat
  ndim :: nat
  random :: rng

text \<open>
  \<open>Ensemble.__init__\<close>. \<open>propose\<close> is the walker's method of that name: it evaluates
  the model at a coordinate vector and returns the new walker, or raises.
\<close>

definition Ensemble_init ::
  "('w state_scheme \<Rightarrow> vec \<Rightarrow> error + 'w state_scheme) \<Rightarrow> 'w state_scheme \<Rightarrow> array_like \<Rightarrow> rng
    \<Rightarrow> error + 'w state_scheme ensemble" where
  "Ensemble_init propose walker coords_arg rnd =
     (case coords_arg of
        Array2 rows \<Rightarrow>
          (case map_err (propose walker) rows of
             Inl e \<Rightarrow> Inl e
           | Inr ws \<Rightarrow>
               (let lp = map lnprior ws;
                    ll = map lnlike ws
                in if list_all isfinite lp \<and> list_all isfinite ll
                   then Inr \<lparr>walkers = ws, e_coords = rows, e_lnprior = lp, e_lnlike = ll,
                             acceptance = replicate (length rows) True,
                             nwalkers = length rows,
                             ndim = (case rows of [] \<Rightarrow> 0 | r # _ \<Rightarrow> length r),
                             random = rnd\<rparr>
                   else Inl (ValueError ''Invalid (un-allowed) initial coordinates'')))
      | _ \<Rightarrow> Inl (ValueError ''Invalid ensemble coordinate dimensions''))"

text \<open>
  \<open>Ensemble.propose\<close> with the default slice: each walker's \<open>propose\<close> on its row of
  the new coordinates, in order; \<open>izip\<close> stops at the shorter of the two.
\<close>

definition Ensemble_propose ::
  "('w \<Rightarrow> vec \<Rightarrow> error + 'w) \<Rightarrow> 'w ensemble \<Rightarrow> vec list \<Rightarrow> error + 'w list" where
  "Ensemble_propose propose e q = map_err (\<lambda>(w, c). propose w c) (zip (walkers e) q)"

text \<open>
  \<open>Ensemble.update\<close>: the loop copies walker \<open>i\<close> into row \<open>i\<close> of the three arrays
  (an index past an array raises), then the whole arrays are tested.
\<close>

fun copy_walkers :: "nat \<Rightarrow> 'w state_scheme list \<Rightarrow> 'w state_scheme ensemble
    \<Rightarrow> error + 'w state_scheme ensemble" where
  "copy_walkers i [] e = Inr e"
| "copy_walkers i (w # ws) e =
     (if i < length (e_coords e) \<and> i < length (e_lnprior e) \<and> i < length (e_lnlike e)
      then copy_walkers (Suc i) ws
             (e\<lparr>e_coords := (e_coords e)[i := coords w],
                e_lnprior := (e_lnprior e)[i := lnprior w],
                e_lnlike := (e_lnlike e)[i := lnlike w]\<rparr>)
      else Inl IndexError)"

definition Ensemble_update :: "'w state_scheme ensemble \<Rightarrow> error + 'w state_scheme ensemble" where
  "Ensemble_update e =
     (case copy_walkers 0 (walkers e) e of
        Inl x \<Rightarrow> Inl x
      | Inr e' \<Rightarrow>
          if list_all (list_all isfinite) (e_coords e') \<and> list_all isfinite (e_lnprior e')
             \<and> list_all isfinite (e_lnlike e')
          then Inr e'
          else Inl (RuntimeError ''An invalid proposal was accepted''))"

subsection \<open>A walker for the examples\<close>

text \<open>
  The \<open>UniformWalker\<close> of testing/common.py: the prior is flat on the open cube
  \<open>(-1, 1)\<close> in every coordinate and \<open>-inf\<close> outside, the likelihood is flat.
\<close>

definition uniform_walker :: "vec \<Rightarrow> state" where
  "uniform_walker p =
     \<lparr>coords = p,
      lnprior = (if list_all (\<lambda>x. Fin (- 1) < x \<and> x < Fin 1) p then Fin 0 else MInf),
      lnlike = Fin 0,
      accepted = False\<rparr>"

definition uniform_walker_propose :: "state \<Rightarrow> vec \<Rightarrow> error + state" where
  "uniform_walker_propose w p = Inr (uniform_walker p)"

definition example_ensemble :: "state ensemble" where
  "example_ensemble =
     \<lparr>walkers = [uniform_walker [Fin 0], uniform_walker [Fin (1/2)]],
      e_coords = [[Fin 0], [Fin (1/2)]],
      e_lnprior = [Fin 0, Fin 0],
      e_lnlike = [Fin 0, Fin 0],
      acceptance = [True, True],
      nwalkers = 2,
      ndim = 1,
      random = sconst 0\<rparr>"

section \<open>Backends (backends/default.py, backends/hdf.py)\<close>

text \<open>
  A backend stores one row per recorded iteration: the coordinates of all walkers
  (\<open>nwalkers \<times> ndim\<close>), their \<open>lnprior\<close> and their \<open>lnlike\<close> (\<open>nwalkers\<close> each).
  \<open>niter\<close> counts the rows committed, \<open>size\<close> is the capacity the backend records.
  The three arrays \<open>_coords\<close>, \<open>_lnprior\<close> and \<open>_lnlike\<close> are \<open>None\<close> together until
  the first \<open>extend\<close> and set together by it: \<open>b_chain\<close> holds the three.
\<close>

record default_backend =
  b_niter :: int
  b_size :: int
  b_nwalkers :: "nat option"
  b_ndim :: "nat option"
  b_chain :: "(vec list list \<times> vec list \<times> vec list) option"
  b_acceptance :: "nat list"

definition DefaultBackend_reset :: "default_backend \<Rightarrow> default_backend" where
  "DefaultBackend_reset b =
     b\<lparr>b_niter := 0, b_size := 0, b_nwalkers := None, b_ndim := None,
       b_chain := None\<rparr>"

definition check_dimensions :: "nat \<Rightarrow> nat \<Rightarrow> nat option \<times> nat option
    \<Rightarrow> error + nat option \<times> nat option" where
  "check_dimensions ens_nwalkers ens_ndim dims =
     (let k = (case fst dims of None \<Rightarrow> ens_nwalkers | Some k \<Rightarrow> k);
          d = (case snd dims of None \<Rightarrow> ens_ndim | Some d \<Rightarrow> d)
      in if k \<noteq> ens_nwalkers \<or> d \<noteq> ens_ndim
         then Inl (ValueError ''Dimension mismatch'')
         else Inr (Some k, Some d))"

text \<open>
  \<open>np.empty\<close> allocates without initialising: \<open>u\<close> stands for what the memory holds.
  \<open>np.resize\<close> fills a larger array with repeated copies of the old one (here the rows
  keep their shape, so whole rows repeat) and gives zeros when the old one has no element.
\<close>

definition np_empty :: "'a \<Rightarrow> nat \<Rightarrow> 'a list" where
  "np_empty u l = replicate l u"

definition np_resize :: "'a \<Rightarrow> 'a list \<Rightarrow> nat \<Rightarrow> 'a list" where
  "np_resize zero xs l = (if xs = [] then replicate l zero else take l (concat (replicate l xs)))"

text \<open>
  \<open>DefaultBackend.extend\<close>. A dimension that is \<open>None\<close> is a \<open>TypeError\<close> of numpy, a
  negative length a \<open>ValueError\<close>.
\<close>

definition DefaultBackend_extend :: "float64 \<Rightarrow> default_backend \<Rightarrow> int \<Rightarrow> error + default_backend" where
  "DefaultBackend_extend u b n =
     (let l = b_niter b + n
      in case (b_nwalkers b, b_ndim b) of
           (Some k, Some d) \<Rightarrow>
             if l < 0 then Inl (ValueError ''negative dimensions are not allowed'')
             else
               (case b_chain b of
                  None \<Rightarrow>
                    Inr (b\<lparr>b_size := l,
                           b_chain := Some (np_empty (replicate k (replicate d u)) (nat l),
                                            np_empty (replicate k u) (nat l),
                                            np_empty (replicate k u) (nat l)),
                           b_acceptance := replicate k 0\<rparr>)
                | Some (c, lp, ll) \<Rightarrow>
                    Inr (b\<lparr>b_size := l,
                           b_chain := Some (np_resize (replicate k (replicate d (Fin 0))) c (nat l),
                                            np_resize (replicate k (Fin 0)) lp (nat l),
                                            np_resize (replicate k (Fin 0)) ll (nat l))\<rparr>))
         | _ \<Rightarrow> Inl TypeError)"

text \<open>
  The HDF backend keeps everything but the dimensions in the file: the group's attributes
  \<open>niter\<close> and \<open>size\<close> and its datasets. \<open>h_file\<close> is the group of the backend's name in
  the file, \<open>None\<close> when the file has none (reading it is a \<open>KeyError\<close>). A dataset
  created by h5py holds zeros, and one resized along its first axis keeps its rows and
  gains rows of zeros of its own shape (\<open>g_nwalkers\<close>, \<open>g_ndim\<close>). No code of the source
  sets \<open>metadata_spec\<close>; the backend modelled has no metadata fields.
\<close>

record hdf_group =
  g_niter :: int
  g_size :: int
  g_nwalkers :: nat
  g_ndim :: nat
  g_coords :: "vec list list"
  g_lnprior :: "vec list"
  g_lnlike :: "vec list"
  g_acceptance :: "nat list"

record hdf_backend =
  initialized :: bool
  h_nwalkers :: "nat option"
  h_ndim :: "nat option"
  h_file :: "hdf_group option"

definition HDFBackend_reset :: "hdf_backend \<Rightarrow> hdf_backend" where
  "HDFBackend_reset b = b\<lparr>initialized := False, h_nwalkers := None, h_ndim := None\<rparr>"

definition h5_resize :: "'a \<Rightarrow> 'a list \<Rightarrow> nat \<Rightarrow> 'a list" where
  "h5_resize zero xs l = take l xs @ replicate (l - length xs) zero"

definition HDFBackend_extend :: "hdf_backend \<Rightarrow> int \<Rightarrow> error + hdf_backend" where
  "HDFBackend_extend b n =
     (if \<not> initialized b then
        (case (h_nwalkers b, h_ndim b) of
           (Some k, Some d) \<Rightarrow>
             if n < 0 then Inl (ValueError ''negative dimensions are not allowed'')
             else Inr (b\<lparr>h_file := Some
                           \<lparr>g_niter = 0, g_size = n, g_nwalkers = k, g_ndim = d,
                            g_coords = replicate (nat n) (replicate k (replicate d (Fin 0))),
                            g_lnprior = replicate (nat n) (replicate k (Fin 0)),
                            g_lnlike = replicate (nat n) (replicate k (Fin 0)),
                            g_acceptance = replicate k 0\<rparr>,
                         initialized := True\<rparr>)
         | _ \<Rightarrow> Inl TypeError)
      else
        (case h_file b of
           None \<Rightarrow> Inl KeyError
         | Some g \<Rightarrow>
             (let niter = g_niter g;
                  size = g_size g;
                  l = niter + n
              in if l < 0 then Inl (ValueError ''negative dimensions are not allowed'')
                 else Inr (b\<lparr>h_file := Some
                               (g\<lparr>g_size := size,
                                  g_coords := h5_resize (replicate (g_nwalkers g)
                                                           (replicate (g_ndim g) (Fin 0)))
                                                (g_coords g) (nat l),
                                  g_lnprior := h5_resize (replicate (g_nwalkers g) (Fin 0))
                                                 (g_lnprior g) (nat l),
                                  g_lnlike := h5_resize (replicate (g_nwalkers g) (Fin 0))
                                                (g_lnlike g) (nat l)\<rparr>)\<rparr>))))"

text \<open>A new HDF backend whose dimensions \<open>check_dimensions\<close> has set.\<close>

definition new_hdf_backend :: "nat \<Rightarrow> nat \<Rightarrow> hdf_backend" where
  "new_hdf_backend k d =
     \<lparr>initialized = False, h_nwalkers = Some k, h_ndim = Some d, h_file = None\<rparr>"

section \<open>The snooker move (moves/de_snooker.py)\<close>

text \<open>
  \<open>ens.random.choice(a, size, replace)\<close> is numpy's and a parameter here, with the
  arguments the move passes. Called with \<open>replace=False\<close> it raises \<open>ValueError\<close> when
  \<open>a < size\<close> and otherwise returns \<open>size\<close> different indices below \<open>a\<close>:
  \<open>choice_contract\<close> states this promise of numpy.
\<close>

type_synonym np_choice = "rng \<Rightarrow> nat \<Rightarrow> nat \<Rightarrow> bool \<Rightarrow> error + nat list \<times> rng"

definition choice_contract :: "np_choice \<Rightarrow> bool" where
  "choice_contract choice =
     (\<forall>g n k. if n < k then (\<exists>e. choice g n k False = Inl e)
              else (\<exists>inds g'. choice g n k False = Inr (inds, g') \<and> length inds = k
                      \<and> distinct inds \<and> list_all (\<lambda>x. x < n) inds))"

text \<open>The default of \<open>gammas\<close>, 1.7.\<close>

definition default_gammas :: float64 where
  "default_gammas = Fin (17 / 10)"

text \<open>
  One iteration of the loop of \<open>get_proposal\<close>, for the set walker \<open>si\<close> and the rows
  \<open>z, z1, z2\<close> of the complement: the candidate and \<open>metropolis[i]\<close>.
\<close>

definition snooker_step :: "float64 \<Rightarrow> vec \<Rightarrow> vec \<Rightarrow> vec \<Rightarrow> vec \<Rightarrow> vec \<times> float64" where
  "snooker_step gammas si z z1 z2 =
     (let delta = vsub si z;
          norm = norm2 delta;
          u = map (\<lambda>x. x / fsqrt norm) delta;
          q = vadd si (map (\<lambda>x. x * gammas * (dot u z1 - dot u z2)) u)
      in (q, flog (norm2 (vsub q z)) - flog norm))"

text \<open>
  The loop: for every set walker one call \<open>choice(Nc, 3, replace=False)\<close> on the stream
  as the walkers before left it, and the rows \<open>c[inds]\<close> unpacked into \<open>z, z1, z2\<close>.
\<close>

fun snooker_loop :: "np_choice \<Rightarrow> float64 \<Rightarrow> vec list \<Rightarrow> vec list \<Rightarrow> rng
    \<Rightarrow> error + (vec \<times> float64) list \<times> rng" where
  "snooker_loop choice gammas c [] g = Inr ([], g)"
| "snooker_loop choice gammas c (si # s) g =
     (case choice g (length c) 3 False of
        Inl e \<Rightarrow> Inl e
      | Inr (inds, g1) \<Rightarrow>
          (case inds of
             [a, b, d] \<Rightarrow>
               if a < length c \<and> b < length c \<and> d < length c
               then (case snooker_loop choice gammas c s g1 of
                       Inl e \<Rightarrow> Inl e
                     | Inr (rest, g2) \<Rightarrow>
                         Inr (snooker_step gammas si (c ! a) (c ! b) (c ! d) # rest, g2))
               else Inl IndexError
           | _ \<Rightarrow> Inl (ValueError ''unpack'')))"

definition get_proposal :: "np_choice \<Rightarrow> float64 \<Rightarrow> nat \<Rightarrow> rng \<Rightarrow> vec list \<Rightarrow> vec list
    \<Rightarrow> error + (vec list \<times> float64 list) \<times> rng" where
  "get_proposal choice gammas ens_ndim g s c =
     (case snooker_loop choice gammas c s g of
        Inl e \<Rightarrow> Inl e
      | Inr (qm, g') \<Rightarrow>
          Inr ((map fst qm,
                map (\<lambda>m. Fin (1/2) * (Fin (real ens_ndim) - Fin 1) * m) (map snd qm)), g'))"

text \<open>
  The proposal in the words of the specification: the candidate
  \<open>q = s + u * gamma * (u . z1 - u . z2)\<close> with \<open>u = (s - z) / sqrt (norm (s - z))\<close>, and
  the log-ratio \<open>((ndim - 1) / 2) * (log (norm (q - z)) - log (norm (s - z)))\<close>.
\<close>

definition spec_snooker_u :: "vec \<Rightarrow> vec \<Rightarrow> vec" where
  "spec_snooker_u s z = map (\<lambda>x. x / fsqrt (norm2 (vsub s z))) (vsub s z)"

definition spec_snooker_q :: "float64 \<Rightarrow> vec \<Rightarrow> vec \<Rightarrow> vec \<Rightarrow> vec \<Rightarrow> vec" where
  "spec_snooker_q gamma s z z1 z2 =
     vadd s (map (\<lambda>x. x * gamma * (dot (spec_snooker_u s z) z1 - dot (spec_snooker_u s z) z2))
               (spec_snooker_u s z))"

definition spec_snooker_log_ratio :: "nat \<Rightarrow> vec \<Rightarrow> vec \<Rightarrow> vec \<Rightarrow> float64" where
  "spec_snooker_log_ratio n q s z =
     Fin ((real n - 1) / 2) * (flog (norm2 (vsub q z)) - flog (norm2 (vsub s z)))"

text \<open>
  The random stream when walker \<open>i\<close> draws: each walker before it has drawn three of
  \<open>n\<close> indices without replacement.
\<close>

fun spec_stream_at :: "np_choice \<Rightarrow> nat \<Rightarrow> rng \<Rightarrow> nat \<Rightarrow> rng" where
  "spec_stream_at choice n g 0 = g"
| "spec_stream_at choice n g (Suc i) =
     (case choice g n 3 False of
        Inl e \<Rightarrow> g
      | Inr (inds, g') \<Rightarrow> spec_stream_at choice n g' i)"

text \<open>
  A \<open>choice\<close> for the examples. Without replacement it draws \<open>k\<close> times from the indices
  not yet drawn, the index at position \<open>floor (r * m)\<close> of the \<open>m\<close> remaining ones for the
  uniform \<open>r\<close>; with replacement it draws each index from all \<open>n\<close>.
\<close>

fun pick_rows :: "nat list \<Rightarrow> nat \<Rightarrow> rng \<Rightarrow> nat list \<times> rng" where
  "pick_rows pool 0 g = ([], g)"
| "pick_rows pool (Suc k) g =
     (let j = min (nat \<lfloor>shd g * real (length pool)\<rfloor>) (length pool - 1);
          x = pool ! j
      in case pick_rows (remove1 x pool) k (stl g) of (xs, g') \<Rightarrow> (x # xs, g'))"

definition stream_choice :: np_choice where
  "stream_choice g n k replace =
     (if replace
      then Inr (map (\<lambda>i. min (nat \<lfloor>(g !! i) * real n\<rfloor>) (n - 1)) [0..<k], sdrop k g)
      else if n < k
      then Inl (ValueError ''Cannot take a larger sample than population when replace=False'')
      else Inr (pick_rows [0..<n] k g))"

text \<open>The complement and the set walkers of the examples.\<close>

definition example_complement :: "vec list" where
  "example_complement = [[Fin 0, Fin 1], [Fin 1, Fin 0], [Fin 0, Fin 0]]"

definition example_set :: "vec list" where
  "example_set = [[Fin 1, Fin 0], [Fin 0, Fin 2]]"

section \<open>The Metropolis-Hastings move (moves/mh.py)\<close>

text \<open>
  The move holds the optional dimension it is valid for and the proposal function, which
  maps the random stream and the coordinate matrix to the candidates and their
  log-ratios.
\<close>

record mh_move =
  mh_ndim :: "nat option"
  proposal :: "rng \<Rightarrow> vec list \<Rightarrow> (vec list \<times> float64 list) \<times> rng"

text \<open>
  The loop over the proposed states. \<open>rand()\<close> is called only when \<open>lnpdiff > 0.0\<close> is
  false, as \<open>or\<close> evaluates its second operand only then.
\<close>

fun mh_accept_loop :: "'w state_scheme list \<Rightarrow> float64 list \<Rightarrow> nat \<Rightarrow> 'w state_scheme list \<Rightarrow> rng
    \<Rightarrow> error + 'w state_scheme list \<times> rng" where
  "mh_accept_loop ws factor i [] g = Inr ([], g)"
| "mh_accept_loop ws factor i (st # sts) g =
     (if i < length ws \<and> i < length factor then
        (let lnpdiff = log_probability st - log_probability (ws ! i) + factor ! i
         in if Fin 0 < lnpdiff then
              (case mh_accept_loop ws factor (Suc i) sts g of
                 Inl e \<Rightarrow> Inl e
               | Inr (r, g') \<Rightarrow> Inr (st\<lparr>accepted := True\<rparr> # r, g'))
            else
              (case rand g of
                 (u, g1) \<Rightarrow>
                   (case mh_accept_loop ws factor (Suc i) sts g1 of
                      Inl e \<Rightarrow> Inl e
                    | Inr (r, g') \<Rightarrow>
                        Inr ((if u < fexp lnpdiff then st\<lparr>accepted := True\<rparr> else st) # r, g'))))
      else Inl IndexError)"

text \<open>
  \<open>MHMove.update\<close>. The move calls \<open>ensemble.update(states)\<close> with the list of states; the
  \<open>update\<close> of ensemble.py takes no such argument, so the commit the move calls is the
  parameter \<open>update\<close> here, and the move returns what it returns.
\<close>

definition MHMove_update ::
  "('w state_scheme \<Rightarrow> vec \<Rightarrow> error + 'w state_scheme)
    \<Rightarrow> ('w state_scheme ensemble \<Rightarrow> 'w state_scheme list \<Rightarrow> error + 'w state_scheme ensemble)
    \<Rightarrow> mh_move \<Rightarrow> 'w state_scheme ensemble \<Rightarrow> error + 'w state_scheme ensemble" where
  "MHMove_update propose update m e =
     (if (case mh_ndim m of None \<Rightarrow> False | Some d \<Rightarrow> d \<noteq> ndim e)
      then Inl (ValueError ''Dimension mismatch in proposal'')
      else
        (case proposal m (random e) (e_coords e) of
           ((q, factor), g1) \<Rightarrow>
             (case Ensemble_propose propose e q of
                Inl x \<Rightarrow> Inl x
              | Inr states \<Rightarrow>
                  (case mh_accept_loop (walkers e) factor 0 states g1 of
                     Inl x \<Rightarrow> Inl x
                   | Inr (states', g2) \<Rightarrow> update (e\<lparr>random := g2\<rparr>) states'))))"

text \<open>
  The acceptance rule in the words of the specification, for walker \<open>i\<close>: the sum
  \<open>log-ratio[i] + new_log_prob[i] - old_log_prob[i]\<close>, and the number of uniforms drawn
  for the walkers before \<open>i\<close> (one for each whose sum is not positive), which is the
  position in the stream of the uniform drawn for \<open>i\<close>.
\<close>

definition spec_mh_sum :: "'w state_scheme list \<Rightarrow> float64 list \<Rightarrow> 'w state_scheme list \<Rightarrow> nat
    \<Rightarrow> float64" where
  "spec_mh_sum ws factor states i =
     factor ! i + log_probability (states ! i) - log_probability (ws ! i)"

definition spec_mh_drawn :: "'w state_scheme list \<Rightarrow> float64 list \<Rightarrow> 'w state_scheme list \<Rightarrow> nat
    \<Rightarrow> nat" where
  "spec_mh_drawn ws factor states i =
     length (filter (\<lambda>j. \<not> Fin 0 < spec_mh_sum ws factor states j) [0..<i])"

definition spec_mh_accepts :: "'w state_scheme list \<Rightarrow> float64 list \<Rightarrow> 'w state_scheme list \<Rightarrow> rng
    \<Rightarrow> nat \<Rightarrow> bool" where
  "spec_mh_accepts ws factor states g i =
     (Fin 0 < spec_mh_sum ws factor states i \<or>
      Fin (g !! spec_mh_drawn ws factor states i) < fexp (spec_mh_sum ws factor states i))"

text \<open>A commit and a move for the examples: the commit stores the states it is given; the
  move proposes the current coordinates with log-ratio 0.\<close>

definition example_commit :: "state ensemble \<Rightarrow> state list \<Rightarrow> error + state ensemble" where
  "example_commit e sts = Inr (e\<lparr>walkers := sts\<rparr>)"

definition example_mh_move :: mh_move where
  "example_mh_move = \<lparr>mh_ndim = Some 1, proposal = (\<lambda>g c. ((c, map (\<lambda>r. Fin 0) c), g))\<rparr>"

section \<open>The Hamiltonian move (moves/hmc.py)\<close>

text \<open>
  A state that went through \<open>get_state(q, compute_grad=True)\<close> carries the gradient of the
  log-probability as \<open>grad_lnprob\<close>; reading the attribute of a state without it is an
  \<open>AttributeError\<close>.
\<close>

record hmc_state = state +
  grad_lnprob :: "vec option"

text \<open>
  \<open>_hmc_vector\<close> holds a scalar or a vector \<open>cov\<close> and applies it elementwise;
  \<open>_hmc_matrix\<close> holds a matrix and applies it with \<open>np.dot\<close>.
\<close>

datatype hmc_cov = CovScalar float64 | CovVector vec | CovMatrix "vec list"

fun cov_apply :: "hmc_cov \<Rightarrow> vec \<Rightarrow> vec" where
  "cov_apply (CovScalar c) x = map ((*) c) x"
| "cov_apply (CovVector v) x = map2 (*) v x"
| "cov_apply (CovMatrix m) x = map (\<lambda>row. dot row x) m"

record hmc_wrapper =
  w_model :: "vec \<Rightarrow> hmc_state"
  w_nsteps :: int
  w_epsilon :: float64
  w_cov :: hmc_cov

text \<open>
  The integration of \<open>_hmc_wrapper.__call__\<close>, up to the negation of the momentum.
  \<open>hmc_steps W i n\<close> runs the iterations \<open>i, ..., i + n - 1\<close> of the loop over
  \<open>xrange(nsteps)\<close>.
\<close>

fun hmc_steps :: "hmc_wrapper \<Rightarrow> nat \<Rightarrow> nat \<Rightarrow> vec \<times> vec \<Rightarrow> error + vec \<times> vec" where
  "hmc_steps W i 0 (q, p) = Inr (q, p)"
| "hmc_steps W i (Suc n) (q, p) =
     (let q' = vadd q (vscale (w_epsilon W) (cov_apply (w_cov W) p))
      in if int i < w_nsteps W - 1 then
           (case grad_lnprob (w_model W q') of
              None \<Rightarrow> Inl AttributeError
            | Some g \<Rightarrow> hmc_steps W (Suc i) n (q', vadd p (vscale (w_epsilon W) g)))
         else hmc_steps W (Suc i) n (q', p))"

definition hmc_integrate :: "hmc_wrapper \<Rightarrow> hmc_state \<Rightarrow> vec \<Rightarrow> error + hmc_state \<times> vec" where
  "hmc_integrate W current_state current_p =
     (let q = coords current_state
      in case (case grad_lnprob current_state of
                 Some g \<Rightarrow> Some g
               | None \<Rightarrow> grad_lnprob (w_model W q)) of
           None \<Rightarrow> Inl AttributeError
         | Some g0 \<Rightarrow>
             (case hmc_steps W 0 (nat (w_nsteps W))
                     (q, vadd current_p (vscale (Fin (1/2) * w_epsilon W) g0)) of
                Inl e \<Rightarrow> Inl e
              | Inr (q', p') \<Rightarrow>
                  (let state = w_model W q'
                   in case grad_lnprob state of
                        None \<Rightarrow> Inl AttributeError
                      | Some g \<Rightarrow>
                          Inr (state, vneg (vadd p' (vscale (Fin (1/2) * w_epsilon W) g))))))"

text \<open>The whole call: the integration, then the factor of the acceptance test.\<close>

definition hmc_call :: "hmc_wrapper \<Rightarrow> hmc_state \<times> vec \<Rightarrow> error + hmc_state \<times> float64" where
  "hmc_call W args =
     (case args of
        (current_state, current_p) \<Rightarrow>
          (case hmc_integrate W current_state current_p of
             Inl e \<Rightarrow> Inl e
           | Inr (state0, p) \<Rightarrow>
               (let state = state0\<lparr>accepted := False\<rparr>
                in if \<not> isfinite (lnprob state) then Inr (state, Fin 0)
                   else Inr (state,
                             Fin (1/2) * dot current_p (cov_apply (w_cov W) current_p)
                               - Fin (1/2) * dot p (cov_apply (w_cov W) p)))))"

text \<open>
  The acceptance loop of \<open>HamiltonianMove.update\<close> for one split: \<open>js\<close> are the indices of
  the walkers of the split, \<open>res\<close> the results of the integrator for them, in order.
  \<open>rand()\<close> is called once for every walker.
\<close>

definition hmc_accept :: "float64 \<Rightarrow> 's state_scheme \<Rightarrow> float64 \<Rightarrow> float64 \<Rightarrow> 's state_scheme" where
  "hmc_accept factor st old_lnprob u =
     (let lnpdiff = factor + lnprob st - old_lnprob
      in if flog u < lnpdiff then st\<lparr>accepted := True\<rparr> else st)"

fun hmc_accept_loop :: "'w state_scheme list \<Rightarrow> nat list \<Rightarrow> ('s state_scheme \<times> float64) list \<Rightarrow> rng
    \<Rightarrow> error + 's state_scheme list \<times> rng" where
  "hmc_accept_loop ws (j # js) ((st, factor) # res) g =
     (if j < length ws then
        (case rand g of
           (u, g1) \<Rightarrow>
             (case hmc_accept_loop ws js res g1 of
                Inl e \<Rightarrow> Inl e
              | Inr (sts, g2) \<Rightarrow> Inr (hmc_accept factor st (lnprob (ws ! j)) u # sts, g2)))
      else Inl IndexError)"
| "hmc_accept_loop ws js res g = Inr ([], g)"

text \<open>
  The integration in the words of the specification, for a model whose gradient at \<open>q\<close>
  is \<open>grad q\<close>: one half step of the momentum with the gradient at the current position,
  then \<open>L\<close> full steps of the position, each followed by a step of the momentum with the
  gradient at the new position, a full one between two position steps and the final half
  step after the last one; at the end the momentum is negated.
\<close>

definition spec_half_momentum :: "float64 \<Rightarrow> vec \<Rightarrow> vec \<Rightarrow> vec" where
  "spec_half_momentum eps g p = vadd p (vscale (Fin (1/2) * eps) g)"

definition spec_full_momentum :: "float64 \<Rightarrow> vec \<Rightarrow> vec \<Rightarrow> vec" where
  "spec_full_momentum eps g p = vadd p (vscale eps g)"

definition spec_full_position :: "float64 \<Rightarrow> hmc_cov \<Rightarrow> vec \<Rightarrow> vec \<Rightarrow> vec" where
  "spec_full_position eps cov q p = vadd q (vscale eps (cov_apply cov p))"

fun spec_alternate :: "(vec \<Rightarrow> vec) \<Rightarrow> float64 \<Rightarrow> hmc_cov \<Rightarrow> nat \<Rightarrow> vec \<times> vec \<Rightarrow> vec \<times> vec" where
  "spec_alternate grad eps cov 0 (q, p) = (q, spec_half_momentum eps (grad q) p)"
| "spec_alternate grad eps cov (Suc 0) (q, p) =
     (let q' = spec_full_position eps cov q p
      in (q', spec_half_momentum eps (grad q') p))"
| "spec_alternate grad eps cov (Suc (Suc L)) (q, p) =
     (let q' = spec_full_position eps cov q p
      in spec_alternate grad eps cov (Suc L) (q', spec_full_momentum eps (grad q') p))"

definition spec_leapfrog :: "(vec \<Rightarrow> vec) \<Rightarrow> float64 \<Rightarrow> hmc_cov \<Rightarrow> nat \<Rightarrow> vec \<times> vec \<Rightarrow> vec \<times> vec" where
  "spec_leapfrog grad eps cov L qp =
     (case qp of
        (q0, p0) \<Rightarrow>
          (case spec_alternate grad eps cov L (q0, spec_half_momentum eps (grad q0) p0) of
             (q, p) \<Rightarrow> (q, vneg p)))"

text \<open>
  One step of the leapfrog scheme: a half step of the momentum, a full step of the
  position, a half step of the momentum at the new position.
\<close>

definition spec_leapfrog_step :: "(vec \<Rightarrow> vec) \<Rightarrow> float64 \<Rightarrow> hmc_cov \<Rightarrow> vec \<times> vec \<Rightarrow> vec \<times> vec" where
  "spec_leapfrog_step grad eps cov qp =
     (case qp of
        (q, p) \<Rightarrow>
          (let p1 = spec_half_momentum eps (grad q) p;
               q' = spec_full_position eps cov q p1
           in (q', spec_half_momentum eps (grad q') p1)))"

text \<open>
  A model for the examples, the \<open>NormalWalker\<close> of testing/common.py with \<open>ivar = 1\<close>:
  flat prior, \<open>lnlike = -0.5 * sum (q ** 2)\<close>, whose gradient is \<open>-q\<close>.
\<close>

definition normal_model :: "vec \<Rightarrow> hmc_state" where
  "normal_model q =
     \<lparr>coords = q, lnprior = Fin 0, lnlike = Fin (- (1/2)) * vsum (map (\<lambda>x. x * x) q),
      accepted = False, grad_lnprob = Some (vneg q)\<rparr>"

definition example_hmc :: hmc_wrapper where
  "example_hmc = \<lparr>w_model = normal_model, w_nsteps = 2, w_epsilon = Fin (1/2), w_cov = CovScalar (Fin 1)\<rparr>"

text \<open>
  Two more models for the examples, both with a zero gradient: \<open>box_model\<close> has the prior
  of the \<open>UniformWalker\<close> (\<open>-inf\<close> outside the open cube), \<open>pole_model\<close> a likelihood that is
  \<open>+inf\<close> outside it, as the log-density of a distribution with a pole is at the pole.
\<close>

definition box_model :: "vec \<Rightarrow> hmc_state" where
  "box_model q =
     \<lparr>coords = q,
      lnprior = (if list_all (\<lambda>x. Fin (- 1) < x \<and> x < Fin 1) q then Fin 0 else MInf),
      lnlike = Fin 0, accepted = False, grad_lnprob = Some (map (\<lambda>x. Fin 0) q)\<rparr>"

definition pole_model :: "vec \<Rightarrow> hmc_state" where
  "pole_model q =
     \<lparr>coords = q, lnprior = Fin 0,
      lnlike = (if list_all (\<lambda>x. Fin (- 1) < x \<and> x < Fin 1) q then Fin 0 else PInf),
      accepted = False, grad_lnprob = Some (map (\<lambda>x. Fin 0) q)\<rparr>"

definition hmc_one_step :: "(vec \<Rightarrow> hmc_state) \<Rightarrow> hmc_wrapper" where
  "hmc_one_step model = \<lparr>w_model = model, w_nsteps = 1, w_epsilon = Fin 1, w_cov = CovScalar (Fin 1)\<rparr>"

section \<open>The no-U-turn move (moves/nuts.py)\<close>

text \<open>
  The states of a trajectory carry the gradient of the log-probability and, as the
  attribute \<open>_momentum\<close>, the momentum; the state returned carries the number of
  doublings as \<open>_nuts_steps\<close>.
\<close>

record nuts_state = state +
  grad_log_probability :: vec
  momentum :: vec
  nuts_steps :: "nat option"

text \<open>
  What \<open>__call__\<close>, \<open>build_tree\<close> and \<open>leapfrog\<close> read of the wrapper: the model's
  \<open>compute_grad_log_probability\<close> and \<open>compute_log_probability\<close>, the constructor
  \<open>State\<close> of a state at given coordinates (the model and the state class are not part
  of the sources at hand and are parameters), \<open>cov\<close>, \<open>epsilon\<close>, \<open>max_depth\<close> and
  \<open>delta_max\<close>. The random stream \<open>self.random\<close> is passed along.
\<close>

record nuts_wrapper =
  n_compute_grad :: "nuts_state \<Rightarrow> nuts_state"
  n_compute_lp :: "nuts_state \<Rightarrow> nuts_state"
  n_State :: "vec \<Rightarrow> nuts_state"
  n_cov :: hmc_cov
  n_epsilon :: float64
  n_max_depth :: nat
  n_delta_max :: float64

definition leapfrog :: "nuts_wrapper \<Rightarrow> nuts_state \<Rightarrow> float64 \<Rightarrow> nuts_state" where
  "leapfrog W st epsilon =
     (let p = vadd (momentum st) (vscale (Fin (1/2) * epsilon) (grad_log_probability st));
          q = vadd (coords st) (vscale epsilon (cov_apply (n_cov W) p));
          st' = n_compute_grad W (n_State W q)
      in st'\<lparr>momentum := vadd p (vscale (Fin (1/2) * epsilon) (grad_log_probability st'))\<rparr>)"

text \<open>
  \<open>build_tree\<close> returns \<open>(state_m, state_p, state_pr, n_pr, s_pr)\<close>. The uniform of the
  inner acceptance is drawn only when \<open>n_pr_2 > 0\<close>.
\<close>

type_synonym tree = "nuts_state \<times> nuts_state \<times> nuts_state \<times> nat \<times> bool"

fun build_tree :: "nuts_wrapper \<Rightarrow> nuts_state \<Rightarrow> float64 \<Rightarrow> float64 \<Rightarrow> nat \<Rightarrow> rng \<Rightarrow> tree \<times> rng" where
  "build_tree W st u v 0 g =
     (let state_pr = leapfrog W st (v * n_epsilon W);
          K_pr = dot (momentum state_pr) (cov_apply (n_cov W) (momentum state_pr));
          log_prob_pr = log_probability st - Fin (1/2) * K_pr;
          n_pr = (if flog u < log_prob_pr then 1 else 0);
          s_pr = (flog u - n_delta_max W < log_prob_pr)
      in ((state_pr, state_pr, state_pr, n_pr, s_pr), g))"
| "build_tree W st u v (Suc j) g =
     (case build_tree W st u v j g of
        ((state_m, state_p, state_pr, n_pr, s_pr), g1) \<Rightarrow>
          if s_pr then
            (case (if v < Fin 0
                   then (case build_tree W state_m u v j g1 of
                           ((m2, p2, pr2, n2, s2), g2) \<Rightarrow> ((m2, state_p, pr2, n2, s2), g2))
                   else (case build_tree W state_p u v j g1 of
                           ((m2, p2, pr2, n2, s2), g2) \<Rightarrow> ((state_m, p2, pr2, n2, s2), g2))) of
               ((state_m', state_p', state_pr_2, n_pr_2, s_pr_2), g2) \<Rightarrow>
                 (case (if 0 < n_pr_2
                        then (case rand g2 of
                                (r, g3) \<Rightarrow> (r < Fin (real n_pr_2 / real (n_pr + n_pr_2)), g3))
                        else (False, g2)) of
                    (replace, g3) \<Rightarrow>
                      (let delta = vsub (coords state_p') (coords state_m')
                       in (((state_m', state_p',
                             (if replace then state_pr_2 else state_pr),
                             n_pr + n_pr_2,
                             s_pr_2 \<and> Fin 0 \<le> dot delta (momentum state_m')
                                    \<and> Fin 0 \<le> dot delta (momentum state_p')), g3)))))
          else ((state_m, state_p, state_pr, n_pr, s_pr), g1))"

text \<open>
  The body of the loop of \<open>__call__\<close> at depth \<open>j\<close>, on the loop's variables
  \<open>(state_minus, state_plus, state, n)\<close> and the stream: the direction, the new subtree,
  the test \<open>s and rand() < float(n_pr) / n\<close> (\<open>nuts_select\<close>, which draws only when \<open>s\<close>
  holds), the count, and whether the loop breaks. \<open>n\<close> starts at 1 and only grows, so
  the division is by a positive number. In Python \<open>state_pr\<close> can be the same object as
  an edge state of the trajectory, whose \<open>accepted\<close> attribute the assignment then sets as
  well; no code reads that attribute of an edge state, and here the edge states keep
  theirs.
\<close>

definition nuts_direction :: "rng \<Rightarrow> float64 \<times> rng" where
  "nuts_direction g =
     (case rand g of (r, g1) \<Rightarrow> (Fin 1 - Fin 2 * (if r < Fin (1/2) then Fin 1 else Fin 0), g1))"

definition nuts_extend :: "nuts_wrapper \<Rightarrow> float64 \<Rightarrow> float64 \<Rightarrow> nat \<Rightarrow> nuts_state \<Rightarrow> nuts_state
    \<Rightarrow> rng \<Rightarrow> tree \<times> rng" where
  "nuts_extend W u v j state_minus state_plus g =
     (if v < Fin 0
      then (case build_tree W state_minus u v j g of
              ((m, p, pr, n_pr, s), g') \<Rightarrow> ((m, state_plus, pr, n_pr, s), g'))
      else (case build_tree W state_minus u v j g of
              ((m, p, pr, n_pr, s), g') \<Rightarrow> ((state_minus, p, pr, n_pr, s), g')))"

definition nuts_select :: "bool \<Rightarrow> nat \<Rightarrow> nat \<Rightarrow> rng \<Rightarrow> bool \<times> rng" where
  "nuts_select s n_pr n g =
     (if s then (case rand g of (r, g') \<Rightarrow> (r < Fin (real n_pr) / Fin (real n), g'))
      else (False, g))"

type_synonym nuts_vars = "nuts_state \<times> nuts_state \<times> nuts_state \<times> nat \<times> rng"

definition nuts_iter :: "nuts_wrapper \<Rightarrow> float64 \<Rightarrow> nat \<Rightarrow> nuts_vars \<Rightarrow> nuts_vars \<times> bool" where
  "nuts_iter W u j vars =
     (case vars of
        (state_minus, state_plus, st, n, g) \<Rightarrow>
          (case nuts_direction g of
             (v, g1) \<Rightarrow>
               (case nuts_extend W u v j state_minus state_plus g1 of
                  ((state_minus', state_plus', state_pr, n_pr, s), g2) \<Rightarrow>
                    (case nuts_select s n_pr n g2 of
                       (replace, g3) \<Rightarrow>
                         (let delta = vsub (coords state_plus') (coords state_minus')
                          in ((state_minus', state_plus',
                               (if replace then state_pr\<lparr>accepted := True\<rparr> else st),
                               n + n_pr, g3),
                              (s = False \<or> dot delta (momentum state_minus') < Fin 0
                                  \<or> dot delta (momentum state_plus') < Fin 0)))))))"

text \<open>
  \<open>nuts_loop W u j k\<close> runs the iteration of depth \<open>j\<close> and at most \<open>k\<close> more; it returns
  the variables and the last depth run.
\<close>

fun nuts_loop :: "nuts_wrapper \<Rightarrow> float64 \<Rightarrow> nat \<Rightarrow> nat \<Rightarrow> nuts_vars \<Rightarrow> nuts_vars \<times> nat" where
  "nuts_loop W u j 0 vars = (case nuts_iter W u j vars of (vars', brk) \<Rightarrow> (vars', j))"
| "nuts_loop W u j (Suc k) vars =
     (case nuts_iter W u j vars of
        (vars', brk) \<Rightarrow> if brk then (vars', j) else nuts_loop W u (Suc j) k vars')"

text \<open>
  \<open>_nuts_wrapper.__call__\<close>. With \<open>max_depth = 0\<close> the loop does not run and reading \<open>j\<close>
  after it is a \<open>NameError\<close>.
\<close>

definition nuts_call :: "nuts_wrapper \<Rightarrow> nuts_state \<times> vec \<Rightarrow> rng
    \<Rightarrow> error + (nuts_state \<times> float64) \<times> rng" where
  "nuts_call W args g =
     (case args of
        (st0, current_p) \<Rightarrow>
          (let st = (n_compute_grad W st0)\<lparr>momentum := current_p\<rparr>;
               f = log_probability st - Fin (1/2) * dot current_p (cov_apply (n_cov W) current_p)
           in case uniform (Fin 0) (fexp f) g of
                (u, g1) \<Rightarrow>
                  (case n_max_depth W of
                     0 \<Rightarrow> Inl NameError
                   | Suc k \<Rightarrow>
                       (case nuts_loop W u 0 k (st, st, st, 1, g1) of
                          ((state_minus, state_plus, st', n, g2), j) \<Rightarrow>
                            Inr (((n_compute_lp W st')\<lparr>nuts_steps := Some j\<rparr>, MInf), g2)))))"

text \<open>
  A model for the examples: a flat log-probability with a zero gradient, on which a
  walker of momentum \<open>p\<close> moves by \<open>epsilon * p\<close> in every leapfrog step.
\<close>

definition flat_State :: "vec \<Rightarrow> nuts_state" where
  "flat_State q =
     \<lparr>coords = q, lnprior = Fin 0, lnlike = Fin 0, accepted = False,
      grad_log_probability = map (\<lambda>x. Fin 0) q, momentum = [], nuts_steps = None\<rparr>"

definition flat_nuts :: "nat \<Rightarrow> nuts_wrapper" where
  "flat_nuts depth =
     \<lparr>n_compute_grad = (\<lambda>s. s), n_compute_lp = (\<lambda>s. s), n_State = flat_State,
      n_cov = CovScalar (Fin 1), n_epsilon = Fin 1, n_max_depth = depth,
      n_delta_max = Fin 1000\<rparr>"

definition flat_at :: "real \<Rightarrow> nuts_state" where
  "flat_at a = (flat_State [Fin a])\<lparr>momentum := [Fin 1]\<rparr>"

text \<open>The slice variable of the examples: \<open>uniform(0, exp(f))\<close> with \<open>f = -1/2\<close> (flat
  log-probability 0, momentum 1) at the draw \<open>1/2\<close>.\<close>

definition example_u :: float64 where
  "example_u = Fin (exp (- (1/2)) / 2)"

section \<open>Properties\<close>

subsection \<open>Numerical gradients leave their argument as it was\<close>

lemma ng1_loop_frame:
  "ng1_loop f eps y0 i k (x, g) = Inr (x', g') \<Longrightarrow> x' = x"
proof (induction k arbitrary: i x g)
  case 0
  then show ?case by simp
next
  case (Suc k)
  then show ?case
    by (auto simp: Let_def split: sum.splits)
qed

lemma ng2_loop_frame:
  "ng2_loop f eps i k (x, g) = Inr (x', g') \<Longrightarrow> x' = x"
proof (induction k arbitrary: i x g)
  case 0
  then show ?case by simp
next
  case (Suc k)
  then show ?case
    by (auto simp: Let_def split: sum.splits)
qed

lemma ng1_loop_total:
  "\<forall>y. isl (f y) = False \<Longrightarrow> \<exists>g'. ng1_loop f eps y0 i k (x, g) = Inr (x, g')"
proof (induction k arbitrary: i g)
  case 0
  then show ?case by simp
next
  case (Suc k)
  obtain y where y: "f (x[i := x ! i + eps]) = Inr y"
    using Suc.prems by (metis sum.collapse(2))
  show ?case
    using Suc.IH [OF Suc.prems] y by (simp add: Let_def)
qed

lemma ng2_loop_total:
  "\<forall>y. isl (f y) = False \<Longrightarrow> \<exists>g'. ng2_loop f eps i k (x, g) = Inr (x, g')"
proof (induction k arbitrary: i g)
  case 0
  then show ?case by simp
next
  case (Suc k)
  obtain yp where yp: "f (x[i := x ! i + eps]) = Inr yp"
    using Suc.prems by (metis sum.collapse(2))
  obtain ym where ym: "f (x[i := x ! i - eps]) = Inr ym"
    using Suc.prems by (metis sum.collapse(2))
  show ?case
    using Suc.IH [OF Suc.prems] yp ym by (simp add: Let_def)
qed

text \<open>
  C10. For every input vector \<open>x\<close>, a call of \<open>numerical_gradient_1\<close> or of
  \<open>numerical_gradient_2\<close> that returns leaves \<open>x\<close> as it was: each coordinate perturbed
  in place is set back to the value read before the perturbation. When the wrapped
  function never raises, both calls do return.
\<close>

theorem numerical_gradient_restores_argument:
  "(numerical_gradient_1 f eps x = Inr (g, x') \<longrightarrow> x' = x) \<and>
   (numerical_gradient_2 f eps x = Inr (g, x') \<longrightarrow> x' = x) \<and>
   ((\<forall>y. isl (f y) = False) \<longrightarrow>
      (\<exists>g1. numerical_gradient_1 f eps x = Inr (g1, x)) \<and>
      (\<exists>g2. numerical_gradient_2 f eps x = Inr (g2, x)))"
proof (intro conjI impI)
  assume "numerical_gradient_1 f eps x = Inr (g, x')"
  then show "x' = x"
    by (auto simp: numerical_gradient_1_def split: sum.splits dest: ng1_loop_frame)
next
  assume "numerical_gradient_2 f eps x = Inr (g, x')"
  then show "x' = x"
    by (auto simp: numerical_gradient_2_def split: sum.splits dest: ng2_loop_frame)
next
  assume tot: "\<forall>y. isl (f y) = False"
  obtain y0 where y0: "f x = Inr y0"
    using tot by (metis sum.collapse(2))
  obtain g' where "ng1_loop f eps y0 0 (length x) (x, replicate (length x) (Fin 0)) = Inr (x, g')"
    using ng1_loop_total [OF tot] by blast
  then show "\<exists>g1. numerical_gradient_1 f eps x = Inr (g1, x)"
    by (simp add: numerical_gradient_1_def y0)
next
  assume tot: "\<forall>y. isl (f y) = False"
  obtain g' where "ng2_loop f eps 0 (length x) (x, replicate (length x) (Fin 0)) = Inr (x, g')"
    using ng2_loop_total [OF tot] by blast
  then show "\<exists>g2. numerical_gradient_2 f eps x = Inr (g2, x)"
    by (simp add: numerical_gradient_2_def)
qed

theorem numerical_gradient_restores_argument_witness:
  "(\<exists>g1. numerical_gradient_1 (\<lambda>v. Inr (vsum v)) default_eps [Fin 1, Fin 2]
           = Inr (g1, [Fin 1, Fin 2])) \<and>
   (\<exists>g2. numerical_gradient_2 (\<lambda>v. Inr (vsum v)) default_eps [Fin 1, Fin 2]
           = Inr (g2, [Fin 1, Fin 2]))"
  using numerical_gradient_restores_argument
    [of "\<lambda>v. Inr (vsum v)" default_eps "[Fin 1, Fin 2]"]
  by simp

subsection \<open>The ensemble holds finite values\<close>

lemma copy_walkers_result:
  "copy_walkers i ws e = Inr e' \<Longrightarrow>
     walkers e' = walkers e \<and>
     length (e_coords e') = length (e_coords e) \<and>
     length (e_lnprior e') = length (e_lnprior e) \<and>
     length (e_lnlike e') = length (e_lnlike e) \<and>
     (\<forall>k < length ws. i + k < length (e_coords e) \<and>
                       i + k < length (e_lnprior e) \<and>
                       i + k < length (e_lnlike e) \<and>
                       e_coords e' ! (i + k) = coords (ws ! k) \<and>
                       e_lnprior e' ! (i + k) = lnprior (ws ! k) \<and>
                       e_lnlike e' ! (i + k) = lnlike (ws ! k)) \<and>
     (\<forall>k < i. e_coords e' ! k = e_coords e ! k \<and>
               e_lnprior e' ! k = e_lnprior e ! k \<and>
               e_lnlike e' ! k = e_lnlike e ! k)"
proof (induction ws arbitrary: i e)
  case Nil
  then show ?case by simp
next
  case (Cons w ws)
  let ?e1 = "e\<lparr>e_coords := (e_coords e)[i := coords w],
               e_lnprior := (e_lnprior e)[i := lnprior w],
               e_lnlike := (e_lnlike e)[i := lnlike w]\<rparr>"
  from Cons.prems have inb: "i < length (e_coords e)" "i < length (e_lnprior e)"
      "i < length (e_lnlike e)"
    and rec: "copy_walkers (Suc i) ws ?e1 = Inr e'"
    by (auto split: if_splits)
  note ih = Cons.IH [OF rec]
  have low: "\<forall>k < Suc i. e_coords e' ! k = e_coords ?e1 ! k \<and>
               e_lnprior e' ! k = e_lnprior ?e1 ! k \<and>
               e_lnlike e' ! k = e_lnlike ?e1 ! k"
    using ih by blast
  have at_i: "e_coords e' ! i = coords w" "e_lnprior e' ! i = lnprior w"
      "e_lnlike e' ! i = lnlike w"
    using low inb by simp_all
  have below: "\<forall>k < i. e_coords e' ! k = e_coords e ! k \<and>
               e_lnprior e' ! k = e_lnprior e ! k \<and>
               e_lnlike e' ! k = e_lnlike e ! k"
    using low by simp
  have above: "\<forall>k < length (w # ws). i + k < length (e_coords e) \<and>
                       i + k < length (e_lnprior e) \<and>
                       i + k < length (e_lnlike e) \<and>
                       e_coords e' ! (i + k) = coords ((w # ws) ! k) \<and>
                       e_lnprior e' ! (i + k) = lnprior ((w # ws) ! k) \<and>
                       e_lnlike e' ! (i + k) = lnlike ((w # ws) ! k)"
  proof (intro allI impI)
    fix k assume k: "k < length (w # ws)"
    show "i + k < length (e_coords e) \<and>
          i + k < length (e_lnprior e) \<and>
          i + k < length (e_lnlike e) \<and>
          e_coords e' ! (i + k) = coords ((w # ws) ! k) \<and>
          e_lnprior e' ! (i + k) = lnprior ((w # ws) ! k) \<and>
          e_lnlike e' ! (i + k) = lnlike ((w # ws) ! k)"
    proof (cases k)
      case 0
      then show ?thesis using at_i inb by simp
    next
      case (Suc j)
      then have "j < length ws" using k by simp
      then show ?thesis using ih Suc by simp
    qed
  qed
  show ?case
    using ih below above by simp
qed

lemma list_all_nth_iff: "list_all P xs = (\<forall>k < length xs. P (xs ! k))"
  by (simp add: list_all_length)

lemma Ensemble_update_finite:
  assumes "Ensemble_update e = Inr e'"
  shows "list_all (list_all isfinite) (e_coords e') \<and>
         list_all isfinite (e_lnprior e') \<and>
         list_all isfinite (e_lnlike e') \<and>
         walkers e' = walkers e \<and>
         list_all (\<lambda>w. list_all isfinite (coords w) \<and> isfinite (lnprior w) \<and> isfinite (lnlike w))
           (walkers e')"
proof -
  from assms obtain e1 where cw: "copy_walkers 0 (walkers e) e = Inr e1"
    by (auto simp: Ensemble_update_def split: sum.splits)
  with assms have e1: "e' = e1" and fin: "list_all (list_all isfinite) (e_coords e')"
      "list_all isfinite (e_lnprior e')" "list_all isfinite (e_lnlike e')"
    by (auto simp: Ensemble_update_def split: if_splits)
  note r = copy_walkers_result [OF cw]
  have w: "walkers e' = walkers e" using r e1 by simp
  have "\<forall>k < length (walkers e). list_all isfinite (coords (walkers e ! k)) \<and>
          isfinite (lnprior (walkers e ! k)) \<and> isfinite (lnlike (walkers e ! k))"
  proof (intro allI impI)
    fix k assume k: "k < length (walkers e)"
    have eq: "e_coords e' ! k = coords (walkers e ! k)"
        "e_lnprior e' ! k = lnprior (walkers e ! k)"
        "e_lnlike e' ! k = lnlike (walkers e ! k)"
      using r k e1 by auto
    have len: "k < length (e_coords e')" "k < length (e_lnprior e')" "k < length (e_lnlike e')"
      using r k e1 by auto
    show "list_all isfinite (coords (walkers e ! k)) \<and>
          isfinite (lnprior (walkers e ! k)) \<and> isfinite (lnlike (walkers e ! k))"
      using fin len eq by (metis list_all_length)
  qed
  then have "list_all (\<lambda>w. list_all isfinite (coords w) \<and> isfinite (lnprior w) \<and> isfinite (lnlike w))
           (walkers e')"
    using w by (simp add: list_all_length)
  with fin w show ?thesis by simp
qed

text \<open>
  C1. When the constructor returns an ensemble, every walker's \<open>lnprior\<close> and \<open>lnlike\<close>
  (and the two arrays that hold them) are finite; when the walkers were built and one of
  the values is not finite, it raises \<open>ValueError\<close> with the message of invalid initial
  coordinates. When \<open>update\<close> returns, all stored coordinates, \<open>lnprior\<close> and \<open>lnlike\<close>
  values, and those of every walker, are finite; when the copy went through and a stored
  value is not finite, it raises \<open>RuntimeError\<close> with the message of an accepted invalid
  proposal.
\<close>

theorem ensemble_values_finite:
  "(Ensemble_init propose walker c rnd = Inr e \<longrightarrow>
      list_all (\<lambda>w. isfinite (lnprior w) \<and> isfinite (lnlike w)) (walkers e) \<and>
      e_lnprior e = map lnprior (walkers e) \<and> e_lnlike e = map lnlike (walkers e) \<and>
      list_all isfinite (e_lnprior e) \<and> list_all isfinite (e_lnlike e)) \<and>
   (map_err (propose walker) rows = Inr ws \<and>
      \<not> (list_all isfinite (map lnprior ws) \<and> list_all isfinite (map lnlike ws)) \<longrightarrow>
      Ensemble_init propose walker (Array2 rows) rnd
        = Inl (ValueError ''Invalid (un-allowed) initial coordinates'')) \<and>
   (Ensemble_update e0 = Inr e' \<longrightarrow>
      list_all (list_all isfinite) (e_coords e') \<and>
      list_all isfinite (e_lnprior e') \<and>
      list_all isfinite (e_lnlike e') \<and>
      walkers e' = walkers e0 \<and>
      list_all (\<lambda>w. list_all isfinite (coords w) \<and> isfinite (lnprior w) \<and> isfinite (lnlike w))
        (walkers e')) \<and>
   (copy_walkers 0 (walkers e2) e2 = Inr e1 \<and>
      \<not> (list_all (list_all isfinite) (e_coords e1) \<and> list_all isfinite (e_lnprior e1)
         \<and> list_all isfinite (e_lnlike e1)) \<longrightarrow>
      Ensemble_update e2 = Inl (RuntimeError ''An invalid proposal was accepted''))"
proof (intro conjI impI)
  assume a: "Ensemble_init propose walker c rnd = Inr e"
  then obtain rows' ws' where c: "c = Array2 rows'"
      and ws: "map_err (propose walker) rows' = Inr ws'"
    by (auto simp: Ensemble_init_def split: array_like.splits sum.splits)
  from a c ws have fin: "list_all isfinite (map lnprior ws')" "list_all isfinite (map lnlike ws')"
      and e: "walkers e = ws'" "e_lnprior e = map lnprior ws'" "e_lnlike e = map lnlike ws'"
    by (auto simp: Ensemble_init_def Let_def split: if_splits)
  show "list_all (\<lambda>w. isfinite (lnprior w) \<and> isfinite (lnlike w)) (walkers e)"
    using fin e by (simp add: list_all_length)
  show "e_lnprior e = map lnprior (walkers e)" using e by simp
  show "e_lnlike e = map lnlike (walkers e)" using e by simp
  show "list_all isfinite (e_lnprior e)" using fin e by simp
  show "list_all isfinite (e_lnlike e)" using fin e by simp
next
  assume "map_err (propose walker) rows = Inr ws \<and>
      \<not> (list_all isfinite (map lnprior ws) \<and> list_all isfinite (map lnlike ws))"
  then show "Ensemble_init propose walker (Array2 rows) rnd
        = Inl (ValueError ''Invalid (un-allowed) initial coordinates'')"
    by (auto simp: Ensemble_init_def Let_def)
next
  assume u: "Ensemble_update e0 = Inr e'"
  note f = Ensemble_update_finite [OF u]
  show "list_all (list_all isfinite) (e_coords e')" using f by blast
  show "list_all isfinite (e_lnprior e')" using f by blast
  show "list_all isfinite (e_lnlike e')" using f by blast
  show "walkers e' = walkers e0" using f by blast
  show "list_all (\<lambda>w. list_all isfinite (coords w) \<and> isfinite (lnprior w) \<and> isfinite (lnlike w))
        (walkers e')" using f by blast
next
  assume "copy_walkers 0 (walkers e2) e2 = Inr e1 \<and>
      \<not> (list_all (list_all isfinite) (e_coords e1) \<and> list_all isfinite (e_lnprior e1)
         \<and> list_all isfinite (e_lnlike e1))"
  then show "Ensemble_update e2 = Inl (RuntimeError ''An invalid proposal was accepted'')"
    by (auto simp: Ensemble_update_def)
qed

theorem ensemble_values_finite_witness:
  "Ensemble_init uniform_walker_propose (uniform_walker []) (Array2 [[Fin 0], [Fin (1/2)]]) (sconst 0)
     = Inr example_ensemble \<and>
   list_all (\<lambda>w. isfinite (lnprior w) \<and> isfinite (lnlike w)) (walkers example_ensemble) \<and>
   Ensemble_init uniform_walker_propose (uniform_walker []) (Array2 [[Fin 0], [Fin 2]]) (sconst 0)
     = Inl (ValueError ''Invalid (un-allowed) initial coordinates'') \<and>
   Ensemble_update (example_ensemble\<lparr>walkers := [uniform_walker [Fin (1/4)], uniform_walker [Fin (1/2)]]\<rparr>)
     = Inr (example_ensemble\<lparr>walkers := [uniform_walker [Fin (1/4)], uniform_walker [Fin (1/2)]],
                           e_coords := [[Fin (1/4)], [Fin (1/2)]]\<rparr>) \<and>
   Ensemble_update (example_ensemble\<lparr>walkers := [uniform_walker [Fin 2], uniform_walker [Fin (1/2)]]\<rparr>)
     = Inl (RuntimeError ''An invalid proposal was accepted'')"
  using ensemble_values_finite
    [of uniform_walker_propose "uniform_walker []" "Array2 [[Fin 0], [Fin (1/2)]]" "sconst 0"
        example_ensemble
        "[[Fin 0], [Fin 2]]" "[uniform_walker [Fin 0], uniform_walker [Fin 2]]"
        "example_ensemble\<lparr>walkers := [uniform_walker [Fin (1/4)], uniform_walker [Fin (1/2)]]\<rparr>"
        "example_ensemble\<lparr>walkers := [uniform_walker [Fin (1/4)], uniform_walker [Fin (1/2)]],
                           e_coords := [[Fin (1/4)], [Fin (1/2)]]\<rparr>"
        "example_ensemble\<lparr>walkers := [uniform_walker [Fin 2], uniform_walker [Fin (1/2)]]\<rparr>"
        "example_ensemble\<lparr>walkers := [uniform_walker [Fin 2], uniform_walker [Fin (1/2)]],
                           e_coords := [[Fin 2], [Fin (1/2)]], e_lnprior := [MInf, Fin 0]\<rparr>"]
  by (simp add: Ensemble_init_def Ensemble_update_def uniform_walker_propose_def uniform_walker_def
      example_ensemble_def Let_def numeral_2_eq_2)

subsection \<open>Extending a backend\<close>

lemma length_np_resize: "length (np_resize z xs l) = l"
proof (cases "xs = []")
  case True
  then show ?thesis by (simp add: np_resize_def)
next
  case False
  then have "1 \<le> length xs" by (cases xs) simp_all
  then have "l * 1 \<le> l * length xs" by (rule mult_le_mono2)
  then have "l \<le> length (concat (replicate l xs))"
    by (simp add: length_concat sum_list_replicate)
  then show ?thesis using False by (simp add: np_resize_def)
qed

text \<open>
  The in-memory backend does what C9 says: with the dimensions set and \<open>n > 0\<close>,
  \<open>extend(n)\<close> returns, the recorded size and the length of the three arrays are
  \<open>niter + n\<close>, and \<open>niter\<close> is as before.
\<close>

lemma DefaultBackend_extend_size:
  assumes "b_nwalkers b = Some k" "b_ndim b = Some d" "0 \<le> b_niter b" "0 < n"
  shows "\<exists>b' c lp ll. DefaultBackend_extend u b n = Inr b' \<and>
           b_size b' = b_niter b + n \<and> b_niter b' = b_niter b \<and>
           b_chain b' = Some (c, lp, ll) \<and> int (length c) = b_niter b + n \<and>
           int (length lp) = b_niter b + n \<and> int (length ll) = b_niter b + n"
proof (cases "b_chain b")
  case None
  then show ?thesis
    using assms by (simp add: DefaultBackend_extend_def Let_def np_empty_def)
next
  case (Some t)
  then obtain c lp ll where "b_chain b = Some (c, lp, ll)"
    by (cases t) auto
  then show ?thesis
    using assms by (simp add: DefaultBackend_extend_def Let_def length_np_resize)
qed

text \<open>
  So does the first \<open>extend\<close> of an HDF backend, which creates the group with
  \<open>niter = 0\<close> and \<open>size = n\<close>. A later one resizes the datasets to \<open>niter + n\<close> rows and
  leaves the \<open>size\<close> attribute as it was.
\<close>

lemma length_h5_resize: "length (h5_resize z xs l) = l"
  by (simp add: h5_resize_def min_def)

lemma HDFBackend_extend_first:
  assumes "\<not> initialized b" "h_nwalkers b = Some k" "h_ndim b = Some d" "0 < n"
  shows "\<exists>b' g. HDFBackend_extend b n = Inr b' \<and> h_file b' = Some g \<and> initialized b' \<and>
           g_niter g = 0 \<and> g_size g = g_niter g + n \<and> int (length (g_coords g)) = n"
  using assms by (simp add: HDFBackend_extend_def)

lemma HDFBackend_extend_later:
  assumes "initialized b" "h_file b = Some g" "0 \<le> g_niter g" "0 < n"
  shows "\<exists>b' g'. HDFBackend_extend b n = Inr b' \<and> h_file b' = Some g' \<and>
           g_niter g' = g_niter g \<and> g_size g' = g_size g \<and>
           int (length (g_coords g')) = g_niter g + n \<and>
           int (length (g_lnprior g')) = g_niter g + n \<and>
           int (length (g_lnlike g')) = g_niter g + n"
  using assms by (simp add: HDFBackend_extend_def Let_def length_h5_resize)

text \<open>
  C9 fails on the HDF backend. After \<open>extend(2)\<close> on a new backend for 2 walkers in 1
  dimension, \<open>extend(3)\<close> resizes the three datasets to \<open>niter + 3 = 3\<close> rows but writes the
  old value back to the \<open>size\<close> attribute, which stays 2.
\<close>

theorem HDFBackend_extend_keeps_size:
  "(case HDFBackend_extend (new_hdf_backend 2 1) 2 of
      Inl e \<Rightarrow> None
    | Inr b1 \<Rightarrow>
        (case HDFBackend_extend b1 3 of
           Inl e \<Rightarrow> None
         | Inr b2 \<Rightarrow> map_option (\<lambda>g. (g_niter g, g_size g, length (g_coords g),
                                       length (g_lnprior g), length (g_lnlike g))) (h_file b2)))
   = Some (0, 2, 3, 3, 3)"
  by (simp add: HDFBackend_extend_def new_hdf_backend_def h5_resize_def Let_def)

subsection \<open>The snooker proposal\<close>

lemma length_three: "length (inds :: nat list) = 3 \<Longrightarrow> \<exists>a b d. inds = [a, b, d]"
  by (auto simp: numeral_3_eq_3 length_Suc_conv)

lemma choice_contract_three:
  assumes "choice_contract choice" "3 \<le> n"
  shows "\<exists>a b d g'. choice g n 3 False = Inr ([a, b, d], g') \<and> distinct [a, b, d]
           \<and> a < n \<and> b < n \<and> d < n"
proof -
  have "\<not> n < 3" using assms(2) by simp
  then obtain inds g' where c: "choice g n 3 False = Inr (inds, g')" and l: "length inds = 3"
      and d: "distinct inds" and r: "list_all (\<lambda>x. x < n) inds"
    using assms(1) unfolding choice_contract_def by metis
  from length_three [OF l] obtain a b e where i: "inds = [a, b, e]" by blast
  show ?thesis
    using c d r i by auto
qed

lemma snooker_loop_result:
  assumes "choice_contract choice" "3 \<le> length c"
  shows "\<exists>qm. snooker_loop choice gammas c s g
             = Inr (qm, spec_stream_at choice (length c) g (length s)) \<and>
           length qm = length s \<and>
           (\<forall>i < length s. \<exists>a b d g1.
               choice (spec_stream_at choice (length c) g i) (length c) 3 False
                 = Inr ([a, b, d], g1)
               \<and> distinct [a, b, d] \<and> a < length c \<and> b < length c \<and> d < length c
               \<and> qm ! i = snooker_step gammas (s ! i) (c ! a) (c ! b) (c ! d))"
proof (induction s arbitrary: g)
  case Nil
  then show ?case by simp
next
  case (Cons si s)
  from choice_contract_three [OF assms, of g] obtain a b d g1 where
      ch: "choice g (length c) 3 False = Inr ([a, b, d], g1)"
      and abd: "distinct [a, b, d]" "a < length c" "b < length c" "d < length c"
    by blast
  from Cons.IH [of g1] obtain rest where
      rest: "snooker_loop choice gammas c s g1
               = Inr (rest, spec_stream_at choice (length c) g1 (length s))"
        "length rest = length s"
      and each: "\<forall>i < length s. \<exists>a b d g2.
          choice (spec_stream_at choice (length c) g1 i) (length c) 3 False = Inr ([a, b, d], g2)
          \<and> distinct [a, b, d] \<and> a < length c \<and> b < length c \<and> d < length c
          \<and> rest ! i = snooker_step gammas (s ! i) (c ! a) (c ! b) (c ! d)"
    by blast
  have next_state: "spec_stream_at choice (length c) g (Suc i) = spec_stream_at choice (length c) g1 i"
    for i
    using ch by simp
  have run: "snooker_loop choice gammas c (si # s) g
      = Inr (snooker_step gammas si (c ! a) (c ! b) (c ! d) # rest,
             spec_stream_at choice (length c) g (length (si # s)))"
    using ch abd rest next_state by simp
  have each': "\<exists>a' b' d' g2.
          choice (spec_stream_at choice (length c) g i) (length c) 3 False = Inr ([a', b', d'], g2)
          \<and> distinct [a', b', d'] \<and> a' < length c \<and> b' < length c \<and> d' < length c
          \<and> (snooker_step gammas si (c ! a) (c ! b) (c ! d) # rest) ! i
              = snooker_step gammas ((si # s) ! i) (c ! a') (c ! b') (c ! d')"
    if "i < length (si # s)" for i
  proof (cases i)
    case 0
    then show ?thesis using ch abd by auto
  next
    case (Suc j)
    then have "j < length s" using that by simp
    then show ?thesis using each Suc next_state by simp
  qed
  show ?case
  proof (intro exI conjI)
    show "snooker_loop choice gammas c (si # s) g
      = Inr (snooker_step gammas si (c ! a) (c ! b) (c ! d) # rest,
             spec_stream_at choice (length c) g (length (si # s)))"
      by (rule run)
    show "length (snooker_step gammas si (c ! a) (c ! b) (c ! d) # rest) = length (si # s)"
      using rest by simp
    show "\<forall>i < length (si # s). \<exists>a' b' d' g2.
          choice (spec_stream_at choice (length c) g i) (length c) 3 False = Inr ([a', b', d'], g2)
          \<and> distinct [a', b', d'] \<and> a' < length c \<and> b' < length c \<and> d' < length c
          \<and> (snooker_step gammas si (c ! a) (c ! b) (c ! d) # rest) ! i
              = snooker_step gammas ((si # s) ! i) (c ! a') (c ! b') (c ! d')"
      using each' by blast
  qed
qed

lemma snooker_step_spec:
  "snooker_step gammas si z z1 z2
     = (spec_snooker_q gammas si z z1 z2,
        flog (norm2 (vsub (spec_snooker_q gammas si z z1 z2) z)) - flog (norm2 (vsub si z)))"
  by (simp add: snooker_step_def spec_snooker_q_def spec_snooker_u_def Let_def)

lemma half_ndim_factor:
  "Fin (1/2) * (Fin (real n) - Fin 1) = Fin ((real n - 1) / 2)"
  by (simp add: minus_float64_def)

text \<open>
  C8. With a complement of at least three rows, \<open>get_proposal\<close> returns one candidate and
  one log-ratio for every set walker, and leaves the stream as the draws of all walkers
  leave it. For walker \<open>i\<close> the call \<open>choice(Nc, 3, replace=False)\<close> on the stream as the
  walkers before it left it returns three indices \<open>a, b, d\<close>, different and below \<open>Nc\<close>;
  with \<open>z, z1, z2\<close> the rows \<open>a, b, d\<close> of the complement, the candidate is
  \<open>s + u * gamma * (u . z1 - u . z2)\<close> with \<open>u = (s - z) / sqrt (norm (s - z))\<close> and the
  log-ratio is \<open>((ndim - 1) / 2) * (log (norm (q - z)) - log (norm (s - z)))\<close>. The
  default \<open>gamma\<close> is 1.7.
\<close>

theorem snooker_get_proposal:
  assumes "choice_contract choice" "3 \<le> length c"
  shows "default_gammas = Fin (17 / 10) \<and>
         (\<exists>q f. get_proposal choice gammas n g s c
                   = Inr ((q, f), spec_stream_at choice (length c) g (length s)) \<and>
            length q = length s \<and> length f = length s \<and>
            (\<forall>i < length s. \<exists>a b d g1.
               choice (spec_stream_at choice (length c) g i) (length c) 3 False
                 = Inr ([a, b, d], g1)
               \<and> distinct [a, b, d] \<and> a < length c \<and> b < length c \<and> d < length c
               \<and> q ! i = spec_snooker_q gammas (s ! i) (c ! a) (c ! b) (c ! d)
               \<and> f ! i = spec_snooker_log_ratio n (q ! i) (s ! i) (c ! a)))"
proof -
  from snooker_loop_result [OF assms, of gammas s g] obtain qm where
      run: "snooker_loop choice gammas c s g
              = Inr (qm, spec_stream_at choice (length c) g (length s))"
      and len: "length qm = length s"
      and each: "\<forall>i < length s. \<exists>a b d g1.
          choice (spec_stream_at choice (length c) g i) (length c) 3 False = Inr ([a, b, d], g1)
          \<and> distinct [a, b, d] \<and> a < length c \<and> b < length c \<and> d < length c
          \<and> qm ! i = snooker_step gammas (s ! i) (c ! a) (c ! b) (c ! d)"
    by blast
  let ?q = "map fst qm"
  let ?f = "map (\<lambda>m. Fin (1/2) * (Fin (real n) - Fin 1) * m) (map snd qm)"
  have res: "get_proposal choice gammas n g s c
      = Inr ((?q, ?f), spec_stream_at choice (length c) g (length s))"
    using run by (simp add: get_proposal_def)
  have each': "\<exists>a b d g1.
          choice (spec_stream_at choice (length c) g i) (length c) 3 False = Inr ([a, b, d], g1)
          \<and> distinct [a, b, d] \<and> a < length c \<and> b < length c \<and> d < length c
          \<and> ?q ! i = spec_snooker_q gammas (s ! i) (c ! a) (c ! b) (c ! d)
          \<and> ?f ! i = spec_snooker_log_ratio n (?q ! i) (s ! i) (c ! a)"
    if i: "i < length s" for i
  proof -
    from each i obtain a b d g1 where
        ch: "choice (spec_stream_at choice (length c) g i) (length c) 3 False = Inr ([a, b, d], g1)"
        and abd: "distinct [a, b, d]" "a < length c" "b < length c" "d < length c"
        and st: "qm ! i = snooker_step gammas (s ! i) (c ! a) (c ! b) (c ! d)"
      by blast
    have q: "?q ! i = spec_snooker_q gammas (s ! i) (c ! a) (c ! b) (c ! d)"
      using i len st by (simp add: snooker_step_spec)
    have f: "?f ! i = spec_snooker_log_ratio n (?q ! i) (s ! i) (c ! a)"
      using i len st
      by (simp add: snooker_step_spec spec_snooker_log_ratio_def half_ndim_factor)
    show ?thesis using ch abd q f by blast
  qed
  show ?thesis
  proof (intro conjI exI)
    show "default_gammas = Fin (17 / 10)" by (simp add: default_gammas_def)
    show "get_proposal choice gammas n g s c
      = Inr ((?q, ?f), spec_stream_at choice (length c) g (length s))"
      by (rule res)
    show "length ?q = length s" using len by simp
    show "length ?f = length s" using len by simp
    show "\<forall>i < length s. \<exists>a b d g1.
          choice (spec_stream_at choice (length c) g i) (length c) 3 False = Inr ([a, b, d], g1)
          \<and> distinct [a, b, d] \<and> a < length c \<and> b < length c \<and> d < length c
          \<and> ?q ! i = spec_snooker_q gammas (s ! i) (c ! a) (c ! b) (c ! d)
          \<and> ?f ! i = spec_snooker_log_ratio n (?q ! i) (s ! i) (c ! a)"
      using each' by blast
  qed
qed

text \<open>
  The example \<open>choice\<close> keeps numpy's promise: what it draws without replacement comes
  from a pool of different indices, each drawn index leaving the pool.
\<close>

lemma pick_rows_distinct:
  "distinct pool \<Longrightarrow> k \<le> length pool \<Longrightarrow> pick_rows pool k g = (xs, g') \<Longrightarrow>
     length xs = k \<and> distinct xs \<and> set xs \<subseteq> set pool"
proof (induction k arbitrary: pool g xs g')
  case 0
  then show ?case by simp
next
  case (Suc k)
  let ?j = "min (nat \<lfloor>shd g * real (length pool)\<rfloor>) (length pool - 1)"
  let ?x = "pool ! ?j"
  have ne: "0 < length pool" using Suc.prems(2) by (cases pool) simp_all
  have "?j \<le> length pool - 1" by (rule min.cobounded2)
  then have j: "?j < length pool" using ne by arith
  then have x: "?x \<in> set pool" by simp
  obtain ys g1 where rec: "pick_rows (remove1 ?x pool) k (stl g) = (ys, g1)"
    by (cases "pick_rows (remove1 ?x pool) k (stl g)") auto
  have xs: "xs = ?x # ys"
    using Suc.prems(3) rec by (simp add: Let_def)
  have d1: "distinct (remove1 ?x pool)" using Suc.prems(1) by simp
  have l1: "k \<le> length (remove1 ?x pool)"
    using Suc.prems(2) x by (simp add: length_remove1)
  from Suc.IH [OF d1 l1 rec] have ih: "length ys = k" "distinct ys"
      "set ys \<subseteq> set (remove1 ?x pool)"
    by simp_all
  have notin: "?x \<notin> set ys"
    using ih(3) Suc.prems(1) by auto
  have sub: "set ys \<subseteq> set pool"
    using ih(3) set_remove1_subset by fastforce
  show ?case
    using xs ih notin sub x by simp
qed

lemma stream_choice_contract: "choice_contract stream_choice"
  unfolding choice_contract_def
proof (intro allI)
  fix g :: rng and n k :: nat
  show "if n < k then (\<exists>e. stream_choice g n k False = Inl e)
        else (\<exists>inds g'. stream_choice g n k False = Inr (inds, g') \<and> length inds = k
                \<and> distinct inds \<and> list_all (\<lambda>x. x < n) inds)"
  proof (cases "n < k")
    case True
    then show ?thesis by (simp add: stream_choice_def)
  next
    case False
    obtain xs g' where p: "pick_rows [0..<n] k g = (xs, g')"
      by (cases "pick_rows [0..<n] k g") auto
    have "length xs = k \<and> distinct xs \<and> set xs \<subseteq> set [0..<n]"
      using pick_rows_distinct [OF _ _ p] False by simp
    then have "length xs = k" "distinct xs" "list_all (\<lambda>x. x < n) xs"
      by (auto simp: list_all_iff)
    then show ?thesis
      using False p by (simp add: stream_choice_def)
  qed
qed

lemma example_draw_0:
  "stream_choice (3/4 ## 0 ## 0 ## g) 3 3 False = Inr ([2, 0, 1], g)"
  by (simp add: stream_choice_def numeral_3_eq_3 Let_def upt_rec)

lemma example_draw_1:
  "stream_choice (0 ## 0 ## 0 ## g) 3 3 False = Inr ([0, 1, 2], g)"
  by (simp add: stream_choice_def numeral_3_eq_3 Let_def upt_rec)

lemma example_candidate_0:
  "spec_snooker_q default_gammas [Fin 1, Fin 0] [Fin 0, Fin 0] [Fin 0, Fin 1] [Fin 1, Fin 0]
     = [Fin (- (7 / 10)), Fin 0]"
  by (simp add: spec_snooker_q_def spec_snooker_u_def default_gammas_def vadd_def vsub_def
      dot_def vsum_def norm2_def minus_float64_def)

theorem snooker_get_proposal_witness:
  "choice_contract stream_choice \<and>
   (\<exists>q f. get_proposal stream_choice default_gammas 2
             (3/4 ## 0 ## 0 ## 0 ## 0 ## 0 ## sconst 0) example_set example_complement
           = Inr ((q, f), sconst 0) \<and>
      length q = 2 \<and> length f = 2 \<and>
      q ! 0 = spec_snooker_q default_gammas [Fin 1, Fin 0] [Fin 0, Fin 0] [Fin 0, Fin 1] [Fin 1, Fin 0] \<and>
      q ! 0 = [Fin (- (7 / 10)), Fin 0] \<and>
      f ! 0 = spec_snooker_log_ratio 2 (q ! 0) [Fin 1, Fin 0] [Fin 0, Fin 0] \<and>
      q ! 1 = spec_snooker_q default_gammas [Fin 0, Fin 2] [Fin 0, Fin 1] [Fin 1, Fin 0] [Fin 0, Fin 0] \<and>
      f ! 1 = spec_snooker_log_ratio 2 (q ! 1) [Fin 0, Fin 2] [Fin 0, Fin 1])"
proof -
  let ?g = "3/4 ## 0 ## 0 ## 0 ## 0 ## 0 ## sconst (0 :: real)"
  have l: "3 \<le> length example_complement"
    by (simp add: example_complement_def)
  have lc: "length example_complement = 3" "length example_set = 2"
    by (simp_all add: example_complement_def example_set_def)
  have s0: "spec_stream_at stream_choice 3 ?g 0 = ?g"
    by simp
  have s1: "spec_stream_at stream_choice 3 ?g 1 = 0 ## 0 ## 0 ## sconst 0"
    by (simp add: example_draw_0)
  have s2: "spec_stream_at stream_choice 3 ?g 2 = sconst 0"
    by (simp add: example_draw_0 example_draw_1 numeral_2_eq_2)
  from snooker_get_proposal [OF stream_choice_contract l, of default_gammas 2 ?g example_set]
  obtain q f where
      run: "get_proposal stream_choice default_gammas 2 ?g example_set example_complement
              = Inr ((q, f), sconst 0)"
      and len: "length q = 2" "length f = 2"
      and each: "\<forall>i < 2. \<exists>a b d g1.
          stream_choice (spec_stream_at stream_choice 3 ?g i) 3 3 False = Inr ([a, b, d], g1)
          \<and> distinct [a, b, d] \<and> a < 3 \<and> b < 3 \<and> d < 3
          \<and> q ! i = spec_snooker_q default_gammas (example_set ! i) (example_complement ! a)
                       (example_complement ! b) (example_complement ! d)
          \<and> f ! i = spec_snooker_log_ratio 2 (q ! i) (example_set ! i) (example_complement ! a)"
    unfolding lc s2 by blast
  from each obtain a b d g1 where
      c0: "stream_choice (spec_stream_at stream_choice 3 ?g 0) 3 3 False = Inr ([a, b, d], g1)"
      and q0: "q ! 0 = spec_snooker_q default_gammas (example_set ! 0) (example_complement ! a)
                       (example_complement ! b) (example_complement ! d)"
      and f0: "f ! 0 = spec_snooker_log_ratio 2 (q ! 0) (example_set ! 0) (example_complement ! a)"
    by (metis zero_less_numeral)
  have abd0: "a = 2" "b = 0" "d = 1"
    using c0 by (simp_all add: example_draw_0)
  from each obtain a' b' d' g1' where
      c1: "stream_choice (spec_stream_at stream_choice 3 ?g 1) 3 3 False = Inr ([a', b', d'], g1')"
      and q1: "q ! 1 = spec_snooker_q default_gammas (example_set ! 1) (example_complement ! a')
                       (example_complement ! b') (example_complement ! d')"
      and f1: "f ! 1 = spec_snooker_log_ratio 2 (q ! 1) (example_set ! 1) (example_complement ! a')"
    by (metis one_less_numeral_iff semiring_norm(76))
  have abd1: "a' = 0" "b' = 1" "d' = 2"
    using c1 unfolding s1 by (simp_all add: example_draw_1)
  have q0': "q ! 0 = spec_snooker_q default_gammas [Fin 1, Fin 0] [Fin 0, Fin 0] [Fin 0, Fin 1] [Fin 1, Fin 0]"
    using q0 abd0 by (simp add: example_set_def example_complement_def)
  have f0': "f ! 0 = spec_snooker_log_ratio 2 (q ! 0) [Fin 1, Fin 0] [Fin 0, Fin 0]"
    using f0 abd0 by (simp add: example_set_def example_complement_def)
  have q1': "q ! 1 = spec_snooker_q default_gammas [Fin 0, Fin 2] [Fin 0, Fin 1] [Fin 1, Fin 0] [Fin 0, Fin 0]"
    using q1 abd1 by (simp add: example_set_def example_complement_def)
  have f1': "f ! 1 = spec_snooker_log_ratio 2 (q ! 1) [Fin 0, Fin 2] [Fin 0, Fin 1]"
    using f1 abd1 by (simp add: example_set_def example_complement_def)
  have q0v: "q ! 0 = [Fin (- (7 / 10)), Fin 0]"
    using q0' by (simp only: example_candidate_0)
  show ?thesis
    using stream_choice_contract run len q0' q0v f0' q1' f1' by blast
qed

subsection \<open>The Metropolis-Hastings move\<close>

text \<open>
  The code adds the log-ratio to the difference of the log-probabilities, the
  specification adds the new log-probability to the log-ratio first: the same value, also
  on the special values.
\<close>

lemma float_sum_order: "(a - b) + c = (c + a) - (b :: float64)"
  by (cases a; cases b; cases c; simp add: minus_float64_def)

lemma mh_accept_loop_char:
  assumes "length all \<le> length ws" "length all \<le> length factor"
  shows "i \<le> length all \<Longrightarrow>
     \<exists>r g'. mh_accept_loop ws factor i (drop i all) g = Inr (r, g') \<and>
        length r = length all - i \<and>
        (\<forall>k < length all - i.
           r ! k = (all ! (i + k))\<lparr>accepted := accepted (all ! (i + k)) \<or>
                     (Fin 0 < spec_mh_sum ws factor all (i + k) \<or>
                      Fin (g !! length (filter (\<lambda>j. \<not> Fin 0 < spec_mh_sum ws factor all j) [i..<i + k]))
                        < fexp (spec_mh_sum ws factor all (i + k)))\<rparr>)"
proof (induction "length all - i" arbitrary: i g)
  case 0
  then show ?case by simp
next
  case (Suc n)
  then have i: "i < length all" and n: "n = length all - Suc i" by simp_all
  have dr: "drop i all = all ! i # drop (Suc i) all"
    using i by (simp add: Cons_nth_drop_Suc)
  have inb: "i < length ws" "i < length factor" using i assms by simp_all
  let ?d = "spec_mh_sum ws factor all"
  have d: "log_probability (all ! i) - log_probability (ws ! i) + factor ! i = ?d i"
    by (simp add: spec_mh_sum_def float_sum_order)
  show ?case
  proof (cases "Fin 0 < ?d i")
    case True
    from Suc.hyps(1) [OF n, of g] i obtain r g' where
        run: "mh_accept_loop ws factor (Suc i) (drop (Suc i) all) g = Inr (r, g')"
        and len: "length r = length all - Suc i"
        and each: "\<forall>k < length all - Suc i.
           r ! k = (all ! (Suc i + k))\<lparr>accepted := accepted (all ! (Suc i + k)) \<or>
                     (Fin 0 < ?d (Suc i + k) \<or>
                      Fin (g !! length (filter (\<lambda>j. \<not> Fin 0 < ?d j) [Suc i..<Suc i + k]))
                        < fexp (?d (Suc i + k)))\<rparr>"
      by auto
    have res: "mh_accept_loop ws factor i (drop i all) g = Inr ((all ! i)\<lparr>accepted := True\<rparr> # r, g')"
      using dr inb d True run by (simp add: Let_def)
    have "((all ! i)\<lparr>accepted := True\<rparr> # r) ! k = (all ! (i + k))\<lparr>accepted := accepted (all ! (i + k)) \<or>
                     (Fin 0 < ?d (i + k) \<or>
                      Fin (g !! length (filter (\<lambda>j. \<not> Fin 0 < ?d j) [i..<i + k]))
                        < fexp (?d (i + k)))\<rparr>" if k: "k < length all - i" for k
    proof (cases k)
      case 0
      then show ?thesis using True by simp
    next
      case (Suc k')
      then have "k' < length all - Suc i" using k by simp
      moreover have "[i..<i + Suc k'] = i # [Suc i..<Suc i + k']"
        by (simp add: upt_conv_Cons)
      ultimately show ?thesis using each Suc True by simp
    qed
    then show ?thesis using res len i by auto
  next
    case False
    from Suc.hyps(1) [OF n, of "stl g"] i obtain r g' where
        run: "mh_accept_loop ws factor (Suc i) (drop (Suc i) all) (stl g) = Inr (r, g')"
        and len: "length r = length all - Suc i"
        and each: "\<forall>k < length all - Suc i.
           r ! k = (all ! (Suc i + k))\<lparr>accepted := accepted (all ! (Suc i + k)) \<or>
                     (Fin 0 < ?d (Suc i + k) \<or>
                      Fin (stl g !! length (filter (\<lambda>j. \<not> Fin 0 < ?d j) [Suc i..<Suc i + k]))
                        < fexp (?d (Suc i + k)))\<rparr>"
      by auto
    have res: "mh_accept_loop ws factor i (drop i all) g
        = Inr ((if Fin (shd g) < fexp (?d i) then (all ! i)\<lparr>accepted := True\<rparr> else all ! i) # r, g')"
      using dr inb d False run by (simp add: Let_def rand_def)
    have "((if Fin (shd g) < fexp (?d i) then (all ! i)\<lparr>accepted := True\<rparr> else all ! i) # r) ! k
         = (all ! (i + k))\<lparr>accepted := accepted (all ! (i + k)) \<or>
                     (Fin 0 < ?d (i + k) \<or>
                      Fin (g !! length (filter (\<lambda>j. \<not> Fin 0 < ?d j) [i..<i + k]))
                        < fexp (?d (i + k)))\<rparr>" if k: "k < length all - i" for k
    proof (cases k)
      case 0
      then show ?thesis using False by simp
    next
      case (Suc k')
      then have "k' < length all - Suc i" using k by simp
      moreover have "[i..<i + Suc k'] = i # [Suc i..<Suc i + k']"
        by (simp add: upt_conv_Cons)
      ultimately show ?thesis using each Suc False by simp
    qed
    then show ?thesis using res len i by auto
  qed
qed

lemma map_err_length: "map_err f xs = Inr ys \<Longrightarrow> length ys = length xs"
  by (induction xs arbitrary: ys) (auto split: sum.splits)

text \<open>
  C7. When the dimensions match, \<open>MHMove.update\<close> evaluates the whole candidate matrix
  \<open>q\<close> of the proposal in one \<open>Ensemble.propose\<close> (every walker's \<open>propose\<close> on its row,
  no split of the ensemble), marks state \<open>i\<close> accepted exactly when
  \<open>log-ratio[i] + new_log_prob[i] - old_log_prob[i] > 0\<close> or the uniform drawn for \<open>i\<close> is
  below the exponential of that sum, changes nothing else in the states, and returns the
  result of one \<open>update\<close> call on the ensemble with the list of all states. The states
  that \<open>propose\<close> returns are not yet accepted.
\<close>

theorem MHMove_update_protocol:
  assumes "mh_ndim m = None \<or> mh_ndim m = Some (ndim e)"
    and "proposal m (random e) (e_coords e) = ((q, factor), g1)"
    and "Ensemble_propose propose e q = Inr states"
    and "length states \<le> length factor"
    and "list_all (\<lambda>s. \<not> accepted s) states"
  shows "Ensemble_propose propose e q = map_err (\<lambda>(w, c). propose w c) (zip (walkers e) q) \<and>
         (\<exists>states' g2.
            MHMove_update propose update m e = update (e\<lparr>random := g2\<rparr>) states' \<and>
            length states' = length states \<and>
            (\<forall>i < length states.
               states' ! i
                 = (states ! i)\<lparr>accepted := spec_mh_accepts (walkers e) factor states g1 i\<rparr>))"
proof -
  have "length states = length (zip (walkers e) q)"
    using assms(3) by (simp add: Ensemble_propose_def map_err_length)
  then have lw: "length states \<le> length (walkers e)" by simp
  from mh_accept_loop_char [OF lw assms(4), of 0 g1] obtain r g' where
      run: "mh_accept_loop (walkers e) factor 0 states g1 = Inr (r, g')"
      and len: "length r = length states"
      and each: "\<forall>k < length states.
           r ! k = (states ! k)\<lparr>accepted := accepted (states ! k) \<or>
                     (Fin 0 < spec_mh_sum (walkers e) factor states k \<or>
                      Fin (g1 !! length (filter (\<lambda>j. \<not> Fin 0 < spec_mh_sum (walkers e) factor states j)
                                          [0..<k]))
                        < fexp (spec_mh_sum (walkers e) factor states k))\<rparr>"
    by auto
  have nodim: "\<not> (case mh_ndim m of None \<Rightarrow> False | Some d \<Rightarrow> d \<noteq> ndim e)"
    using assms(1) by auto
  have upd: "MHMove_update propose update m e = update (e\<lparr>random := g'\<rparr>) r"
    using nodim assms(2,3) run by (simp add: MHMove_update_def)
  have "r ! i = (states ! i)\<lparr>accepted := spec_mh_accepts (walkers e) factor states g1 i\<rparr>"
    if i: "i < length states" for i
  proof -
    have "\<not> accepted (states ! i)"
      using assms(5) i by (simp add: list_all_length)
    then show ?thesis
      using each i by (simp add: spec_mh_accepts_def spec_mh_drawn_def)
  qed
  then show ?thesis
    using upd len by (auto simp: Ensemble_propose_def)
qed

theorem MHMove_update_protocol_witness:
  "\<exists>states' g2.
     MHMove_update uniform_walker_propose example_commit example_mh_move example_ensemble
       = example_commit (example_ensemble\<lparr>random := g2\<rparr>) states' \<and>
     length states' = 2 \<and>
     states' ! 0 = (uniform_walker [Fin 0])\<lparr>accepted := True\<rparr> \<and>
     states' ! 1 = (uniform_walker [Fin (1/2)])\<lparr>accepted := True\<rparr>"
proof -
  let ?sts = "[uniform_walker [Fin 0], uniform_walker [Fin (1/2)]]"
  have h1: "mh_ndim example_mh_move = None
      \<or> mh_ndim example_mh_move = Some (ndim example_ensemble)"
    by (simp add: example_mh_move_def example_ensemble_def)
  have h2: "proposal example_mh_move (random example_ensemble) (e_coords example_ensemble)
      = (([[Fin 0], [Fin (1/2)]], [Fin 0, Fin 0]), sconst 0)"
    by (simp add: example_mh_move_def example_ensemble_def)
  have h3: "Ensemble_propose uniform_walker_propose example_ensemble [[Fin 0], [Fin (1/2)]]
      = Inr ?sts"
    by (simp add: Ensemble_propose_def example_ensemble_def uniform_walker_propose_def)
  have h4: "length ?sts \<le> length [Fin 0, Fin 0 :: float64]"
    by simp
  have h5: "list_all (\<lambda>s. \<not> accepted s) ?sts"
    by (simp add: uniform_walker_def)
  have a0: "spec_mh_accepts (walkers example_ensemble) [Fin 0, Fin 0] ?sts (sconst 0) 0"
    by (simp add: spec_mh_accepts_def spec_mh_sum_def spec_mh_drawn_def example_ensemble_def
        uniform_walker_def lnprob_def minus_float64_def)
  have a1: "spec_mh_accepts (walkers example_ensemble) [Fin 0, Fin 0] ?sts (sconst 0) 1"
    by (simp add: spec_mh_accepts_def spec_mh_sum_def spec_mh_drawn_def example_ensemble_def
        uniform_walker_def lnprob_def minus_float64_def)
  from MHMove_update_protocol [OF h1 h2 h3 h4 h5, of example_commit]
  obtain states' g2 where
      run: "MHMove_update uniform_walker_propose example_commit example_mh_move example_ensemble
              = example_commit (example_ensemble\<lparr>random := g2\<rparr>) states'"
      and len: "length states' = length ?sts"
      and each: "\<forall>i < length ?sts. states' ! i
          = (?sts ! i)\<lparr>accepted := spec_mh_accepts (walkers example_ensemble) [Fin 0, Fin 0]
                                      ?sts (sconst 0) i\<rparr>"
    by blast
  have s0: "states' ! 0 = (uniform_walker [Fin 0])\<lparr>accepted := True\<rparr>"
    using each a0 by simp
  have s1: "states' ! 1 = (uniform_walker [Fin (1/2)])\<lparr>accepted := True\<rparr>"
    using each a1 by simp
  have l2: "length states' = 2"
    using len by simp
  show ?thesis
    using run l2 s0 s1 by blast
qed

subsection \<open>The leapfrog integration of the Hamiltonian move\<close>

lemma hmc_steps_alternate:
  assumes grad: "\<forall>q. grad_lnprob (w_model W q) = Some (grad q)"
    and L: "w_nsteps W = int L"
  shows "i + n = L \<Longrightarrow>
     \<exists>q' p'. hmc_steps W i n (q, p) = Inr (q', p') \<and>
        (q', spec_half_momentum (w_epsilon W) (grad q') p')
          = spec_alternate grad (w_epsilon W) (w_cov W) n (q, p)"
proof (induction n arbitrary: i q p)
  case 0
  then show ?case by simp
next
  case (Suc n)
  let ?q = "vadd q (vscale (w_epsilon W) (cov_apply (w_cov W) p))"
  show ?case
  proof (cases n)
    case 0
    then have "\<not> int i < w_nsteps W - 1" using Suc.prems L by simp
    then show ?thesis using 0 by (simp add: Let_def spec_full_position_def)
  next
    case (Suc m)
    then have lt: "int i < w_nsteps W - 1" using Suc.prems L by simp
    have "Suc i + n = L" using Suc.prems by simp
    from Suc.IH [OF this, of ?q "vadd p (vscale (w_epsilon W) (grad ?q))"]
    show ?thesis
      using lt grad Suc by (simp add: Let_def spec_full_position_def spec_full_momentum_def)
  qed
qed

text \<open>
  C5. For a model that provides the gradient, a starting state whose cached gradient (if
  it has one) is the model's at its position, and \<open>L = nsteps \<ge> 0\<close>, the integrator
  returns the model's state at the final position and the final momentum of: a half step
  of the momentum with the gradient at the current position, then \<open>L\<close> full position
  steps alternating with momentum steps at the new position's gradient, of which the last
  is the final half step, then the negation of the momentum.
\<close>

theorem hmc_integrate_leapfrog:
  assumes "\<forall>q. grad_lnprob (w_model W q) = Some (grad q)"
    and "grad_lnprob current_state = None \<or> grad_lnprob current_state = Some (grad (coords current_state))"
    and "0 \<le> w_nsteps W"
  shows "\<exists>q p. spec_leapfrog grad (w_epsilon W) (w_cov W) (nat (w_nsteps W))
                  (coords current_state, current_p) = (q, p) \<and>
               hmc_integrate W current_state current_p = Inr (w_model W q, p)"
proof -
  have L: "w_nsteps W = int (nat (w_nsteps W))" using assms(3) by simp
  let ?g0 = "grad (coords current_state)"
  let ?p1 = "vadd current_p (vscale (Fin (1/2) * w_epsilon W) ?g0)"
  have g0: "(case grad_lnprob current_state of Some g \<Rightarrow> Some g
             | None \<Rightarrow> grad_lnprob (w_model W (coords current_state))) = Some ?g0"
    using assms(1,2) by (auto split: option.splits)
  from hmc_steps_alternate [OF assms(1) L, of 0 "nat (w_nsteps W)" "coords current_state" ?p1]
  obtain q' p' where run: "hmc_steps W 0 (nat (w_nsteps W)) (coords current_state, ?p1) = Inr (q', p')"
    and alt: "(q', spec_half_momentum (w_epsilon W) (grad q') p')
          = spec_alternate grad (w_epsilon W) (w_cov W) (nat (w_nsteps W)) (coords current_state, ?p1)"
    by auto
  have spec: "spec_leapfrog grad (w_epsilon W) (w_cov W) (nat (w_nsteps W))
                  (coords current_state, current_p)
      = (q', vneg (spec_half_momentum (w_epsilon W) (grad q') p'))"
    using alt [symmetric] by (simp add: spec_leapfrog_def spec_half_momentum_def)
  have code: "hmc_integrate W current_state current_p
      = Inr (w_model W q', vneg (spec_half_momentum (w_epsilon W) (grad q') p'))"
    using g0 run assms(1) by (simp add: hmc_integrate_def Let_def spec_half_momentum_def)
  show ?thesis using spec code by blast
qed

theorem hmc_integrate_leapfrog_witness:
  "hmc_integrate example_hmc (normal_model [Fin 1]) [Fin 0]
     = Inr (normal_model [Fin (17/32)], [Fin (105/128)])"
proof -
  have h1: "\<forall>q. grad_lnprob (w_model example_hmc q) = Some (vneg q)"
    by (simp add: example_hmc_def normal_model_def)
  have h2: "grad_lnprob (normal_model [Fin 1]) = None
      \<or> grad_lnprob (normal_model [Fin 1]) = Some (vneg (coords (normal_model [Fin 1])))"
    by (simp add: normal_model_def)
  have h3: "0 \<le> w_nsteps example_hmc"
    by (simp add: example_hmc_def)
  have sp: "spec_leapfrog vneg (w_epsilon example_hmc) (w_cov example_hmc)
      (nat (w_nsteps example_hmc)) (coords (normal_model [Fin 1]), [Fin 0])
      = ([Fin (17/32)], [Fin (105/128)])"
    by (simp add: example_hmc_def normal_model_def spec_leapfrog_def spec_half_momentum_def
        spec_full_position_def spec_full_momentum_def numeral_2_eq_2 vadd_def vscale_def
        vneg_def Let_def)
  show ?thesis
    using hmc_integrate_leapfrog [OF h1 h2 h3, of "[Fin 0]"] sp
    by (simp add: example_hmc_def)
qed

text \<open>
  For \<open>L \<ge> 1\<close> the integration is \<open>L\<close> leapfrog steps and the negation of the momentum:
  the full momentum step between two position steps is the second half step of one
  leapfrog step and the first of the next.
\<close>

lemma two_halves: "(x + Fin (1/2) * eps * y) + Fin (1/2) * eps * y = x + eps * (y :: float64)"
  by (cases x; cases eps; cases y) (auto simp: signed_inf_def field_simps)

lemma two_half_steps:
  "spec_half_momentum eps g (spec_half_momentum eps g p) = spec_full_momentum eps g p"
proof (induction p arbitrary: g)
  case Nil
  then show ?case by (simp add: spec_half_momentum_def spec_full_momentum_def vadd_def vscale_def)
next
  case (Cons a p)
  then show ?case
    by (cases g)
       (simp_all add: spec_half_momentum_def spec_full_momentum_def vadd_def vscale_def two_halves)
qed

lemma spec_alternate_steps:
  "spec_alternate grad eps cov (Suc L) (q, spec_half_momentum eps (grad q) p)
     = ((spec_leapfrog_step grad eps cov) ^^ (Suc L)) (q, p)"
proof (induction L arbitrary: q p)
  case 0
  then show ?case by (simp add: spec_leapfrog_step_def Let_def)
next
  case (Suc L)
  let ?p1 = "spec_half_momentum eps (grad q) p"
  let ?q = "spec_full_position eps cov q ?p1"
  have "spec_alternate grad eps cov (Suc (Suc L)) (q, ?p1)
      = spec_alternate grad eps cov (Suc L) (?q, spec_full_momentum eps (grad ?q) ?p1)"
    by (simp add: Let_def)
  also have "\<dots> = spec_alternate grad eps cov (Suc L)
      (?q, spec_half_momentum eps (grad ?q) (spec_half_momentum eps (grad ?q) ?p1))"
    by (simp add: two_half_steps)
  also have "\<dots> = ((spec_leapfrog_step grad eps cov) ^^ (Suc L))
      (?q, spec_half_momentum eps (grad ?q) ?p1)"
    by (rule Suc.IH)
  also have "\<dots> = ((spec_leapfrog_step grad eps cov) ^^ (Suc L))
      (spec_leapfrog_step grad eps cov (q, p))"
    by (simp add: spec_leapfrog_step_def Let_def)
  also have "\<dots> = ((spec_leapfrog_step grad eps cov) ^^ (Suc (Suc L))) (q, p)"
    by (simp only: funpow_Suc_right o_apply)
  finally show ?case .
qed

lemma spec_leapfrog_steps:
  "spec_leapfrog grad eps cov (Suc L) (q, p)
     = (case ((spec_leapfrog_step grad eps cov) ^^ (Suc L)) (q, p) of (q', p') \<Rightarrow> (q', vneg p'))"
  by (simp only: spec_leapfrog_def spec_alternate_steps prod.case)

subsection \<open>The acceptance test of the Hamiltonian move\<close>

lemma not_less_MInf: "\<not> (x :: float64) < MInf"
  by (cases x) simp_all

lemma not_less_NaN: "\<not> (x :: float64) < NaN"
  by (cases x) simp_all

lemma MInf_plus_minus: "Fin 0 + MInf - old = MInf \<or> Fin 0 + MInf - old = NaN"
  by (cases old) (simp_all add: minus_float64_def)

lemma NaN_plus_minus: "Fin 0 + NaN - old = NaN"
  by (cases old) (simp_all add: minus_float64_def)

lemma hmc_accept_loop_char:
  "list_all (\<lambda>j. j < length ws) js \<Longrightarrow> length js = length res \<Longrightarrow>
     \<exists>sts g'. hmc_accept_loop ws js res g = Inr (sts, g') \<and> length sts = length res \<and>
       (\<forall>k < length res. sts ! k = hmc_accept (snd (res ! k)) (fst (res ! k))
                                      (lnprob (ws ! (js ! k))) (Fin (g !! k)))"
proof (induction ws js res g rule: hmc_accept_loop.induct)
  case (1 ws j js st factor res g)
  then have j: "j < length ws" and rest: "list_all (\<lambda>j. j < length ws) js" "length js = length res"
    by simp_all
  from 1(1) [OF j _ rest, of "Fin (shd g)" "stl g"] obtain sts g' where
      run: "hmc_accept_loop ws js res (stl g) = Inr (sts, g')" and len: "length sts = length res"
      and each: "\<forall>k < length res. sts ! k = hmc_accept (snd (res ! k)) (fst (res ! k))
                                      (lnprob (ws ! (js ! k))) (Fin (stl g !! k))"
    by (auto simp: rand_def)
  have res1: "hmc_accept_loop ws (j # js) ((st, factor) # res) g
      = Inr (hmc_accept factor st (lnprob (ws ! j)) (Fin (shd g)) # sts, g')"
    using j run by (simp add: rand_def)
  have "(hmc_accept factor st (lnprob (ws ! j)) (Fin (shd g)) # sts) ! k
      = hmc_accept (snd (((st, factor) # res) ! k)) (fst (((st, factor) # res) ! k))
          (lnprob (ws ! ((j # js) ! k))) (Fin (g !! k))" if "k < length ((st, factor) # res)" for k
  proof (cases k)
    case 0
    then show ?thesis by simp
  next
    case (Suc k')
    then show ?thesis using each that by simp
  qed
  then show ?case using res1 len by auto
qed simp_all

text \<open>
  C6, as amended. When the call returns a state whose log-probability is \<open>-inf\<close> or NaN,
  the factor is 0 and the test of \<open>HamiltonianMove.update\<close> accepts it for no uniform and
  no old log-probability. When the log-probability is finite, the factor is half the
  quadratic form \<open>p . cov p\<close> of the initial momentum minus half that of the final
  momentum (\<open>cov\<close> is the inverse of the mass matrix), and the walker is accepted exactly
  when \<open>log u < factor + new - old\<close>.
\<close>

theorem hmc_acceptance:
  assumes "hmc_call W (current_state, current_p) = Inr (st, factor)"
  shows "(lnprob st = MInf \<or> lnprob st = NaN \<longrightarrow>
            factor = Fin 0 \<and> (\<forall>old u. \<not> accepted (hmc_accept factor st old u))) \<and>
         (isfinite (lnprob st) \<longrightarrow>
            (\<exists>st0 p1. hmc_integrate W current_state current_p = Inr (st0, p1) \<and>
               st = st0\<lparr>accepted := False\<rparr> \<and>
               factor = Fin (1/2) * dot current_p (cov_apply (w_cov W) current_p)
                          - Fin (1/2) * dot p1 (cov_apply (w_cov W) p1)) \<and>
            (\<forall>old u. accepted (hmc_accept factor st old u)
                       = (flog u < factor + lnprob st - old)))"
proof -
  from assms obtain st0 p1 where int: "hmc_integrate W current_state current_p = Inr (st0, p1)"
    by (auto simp: hmc_call_def split: sum.splits)
  have st: "st = st0\<lparr>accepted := False\<rparr>"
    using assms int by (auto simp: hmc_call_def Let_def split: if_splits)
  have fac: "factor = (if \<not> isfinite (lnprob st) then Fin 0
               else Fin (1/2) * dot current_p (cov_apply (w_cov W) current_p)
                          - Fin (1/2) * dot p1 (cov_apply (w_cov W) p1))"
    using assms int st by (auto simp: hmc_call_def Let_def split: if_splits)
  have nacc: "\<not> accepted st" using st by simp
  show ?thesis
  proof (intro conjI impI allI)
    assume "lnprob st = MInf \<or> lnprob st = NaN"
    then show "factor = Fin 0" using fac by auto
  next
    fix old u
    assume bad: "lnprob st = MInf \<or> lnprob st = NaN"
    then have f0: "factor = Fin 0" using fac by auto
    have "factor + lnprob st - old = MInf \<or> factor + lnprob st - old = NaN"
      using bad f0 MInf_plus_minus [of old] NaN_plus_minus [of old] by auto
    then have "\<not> flog u < factor + lnprob st - old"
      using not_less_MInf not_less_NaN by metis
    then show "\<not> accepted (hmc_accept factor st old u)"
      using nacc by (simp add: hmc_accept_def Let_def)
  next
    assume "isfinite (lnprob st)"
    then show "\<exists>st0 p1. hmc_integrate W current_state current_p = Inr (st0, p1) \<and>
               st = st0\<lparr>accepted := False\<rparr> \<and>
               factor = Fin (1/2) * dot current_p (cov_apply (w_cov W) current_p)
                          - Fin (1/2) * dot p1 (cov_apply (w_cov W) p1)"
      using int st fac by auto
  next
    fix old u
    show "accepted (hmc_accept factor st old u) = (flog u < factor + lnprob st - old)"
      using nacc by (simp add: hmc_accept_def Let_def)
  qed
qed

lemma hmc_box_call_outside: "hmc_call (hmc_one_step box_model) (box_model [Fin 0], [Fin 2])
     = Inr (box_model [Fin 2], Fin 0)"
  by (simp add: hmc_call_def hmc_integrate_def hmc_one_step_def box_model_def Let_def
      vadd_def vscale_def vneg_def lnprob_def)

lemma hmc_box_call_inside: "hmc_call (hmc_one_step box_model) (box_model [Fin 0], [Fin (1/2)])
     = Inr (box_model [Fin (1/2)], Fin 0)"
  by (simp add: hmc_call_def hmc_integrate_def hmc_one_step_def box_model_def Let_def
      vadd_def vscale_def vneg_def lnprob_def dot_def vsum_def minus_float64_def)

theorem hmc_acceptance_witness:
  "\<not> accepted (hmc_accept (Fin 0) (box_model [Fin 2]) (Fin 0) (Fin (1/2))) \<and>
   accepted (hmc_accept (Fin 0) (box_model [Fin (1/2)]) (Fin 0) (Fin (1/2)))
     = (flog (Fin (1/2)) < Fin 0 + lnprob (box_model [Fin (1/2)]) - Fin 0)"
proof -
  have out: "lnprob (box_model [Fin 2]) = MInf"
    by (simp add: box_model_def lnprob_def)
  have ins: "isfinite (lnprob (box_model [Fin (1/2)]))"
    by (simp add: box_model_def lnprob_def)
  show ?thesis
    using hmc_acceptance [OF hmc_box_call_outside] hmc_acceptance [OF hmc_box_call_inside] out ins
    by blast
qed

text \<open>
  C6 as stated fails for a final log-probability of \<open>+inf\<close>: the state is not finite, the
  factor returned is 0, and the test accepts it from a walker of finite log-probability.
\<close>

theorem hmc_rejects_nonfinite_counterexample:
  "hmc_call (hmc_one_step pole_model) (pole_model [Fin 0], [Fin 2])
     = Inr (pole_model [Fin 2], Fin 0) \<and>
   \<not> isfinite (lnprob (pole_model [Fin 2])) \<and>
   isfinite (lnprob (pole_model [Fin 0])) \<and>
   accepted (hmc_accept (Fin 0) (pole_model [Fin 2]) (lnprob (pole_model [Fin 0])) (Fin (1/2)))"
  by (simp add: hmc_call_def hmc_integrate_def hmc_one_step_def pole_model_def Let_def
      vadd_def vscale_def vneg_def lnprob_def hmc_accept_def minus_float64_def)

subsection \<open>The no-U-turn move\<close>

lemma MInf_plus_minus_any: "MInf + a - b = MInf \<or> MInf + a - b = NaN"
  by (cases a; cases b) (simp_all add: minus_float64_def)

lemma hmc_accept_MInf: "hmc_accept MInf st old u = st"
proof -
  have "\<not> flog u < MInf + lnprob st - old"
    using MInf_plus_minus_any [of "lnprob st" old] not_less_MInf not_less_NaN by metis
  then show ?thesis by (simp add: hmc_accept_def Let_def)
qed

text \<open>The flat model, evaluated: the slice variable, one leapfrog step, the trees of depth
  0 and 1 in the forward direction, and the first two iterations of the loop.\<close>

lemma flat_uniform:
  "uniform (Fin 0) (fexp (Fin (- (1/2)))) (1/2 ## g) = (example_u, g)"
  by (simp add: uniform_def minus_float64_def example_u_def)

lemma flog_example_u: "flog example_u = Fin (- (1/2) + ln (1/2))"
proof -
  have "ln (exp (- (1/2)) * (1/2)) = - (1/2) + ln (1/2 :: real)"
    by (subst ln_mult) simp_all
  then show ?thesis by (simp add: example_u_def)
qed

lemma ln_half_delta: "ln (1/2 :: real) - 2001 / 2 < - (1/2)"
proof -
  have "ln (1/2 :: real) < 0" by simp
  then show ?thesis by linarith
qed

lemma flat_leapfrog:
  "leapfrog (flat_nuts d) (flat_at a) (Fin 1 * n_epsilon (flat_nuts d)) = flat_at (a + 1)"
  by (simp add: leapfrog_def flat_nuts_def flat_at_def flat_State_def vadd_def vscale_def Let_def)

lemma flat_tree_0:
  "build_tree (flat_nuts d) (flat_at a) example_u (Fin 1) 0 g
     = ((flat_at (a + 1), flat_at (a + 1), flat_at (a + 1), 1, True), g)"
  by (simp add: flat_leapfrog flog_example_u Let_def del: flog.simps)
     (simp add: flat_nuts_def flat_at_def flat_State_def dot_def vsum_def lnprob_def
        minus_float64_def ln_half_delta)

lemma flat_tree_1:
  "build_tree (flat_nuts d) (flat_at a) example_u (Fin 1) (Suc 0) (r ## g)
     = ((flat_at (a + 1), flat_at (a + 2),
         (if r < 1/2 then flat_at (a + 2) else flat_at (a + 1)), 2, True), g)"
  by (simp add: flat_tree_0 rand_def del: build_tree.simps(1))
     (simp add: flat_at_def flat_State_def vsub_def dot_def vsum_def minus_float64_def)

lemma flat_direction: "nuts_direction (3/4 ## g) = (Fin 1, g)"
  by (simp add: nuts_direction_def rand_def minus_float64_def)

lemma flat_iter_0:
  "nuts_iter (flat_nuts d) example_u 0 (flat_at 0, flat_at 0, flat_at 0, Suc 0, 3/4 ## r ## g)
     = ((flat_at 0, flat_at 1, (if r < 1 then (flat_at 1)\<lparr>accepted := True\<rparr> else flat_at 0), 2, g),
        False)"
  by (simp add: nuts_iter_def flat_direction nuts_extend_def flat_tree_0 nuts_select_def rand_def
        Let_def del: build_tree.simps)
     (simp add: flat_at_def flat_State_def vsub_def dot_def vsum_def minus_float64_def)

lemma flat_iter_1:
  "nuts_iter (flat_nuts d) example_u (Suc 0) (flat_at 0, flat_at 1, st, 2, 3/4 ## r ## r2 ## g)
     = ((flat_at 0, flat_at 2,
         (if r2 < 1 then (if r < 1/2 then flat_at 2 else flat_at 1)\<lparr>accepted := True\<rparr> else st),
         4, g), False)"
  by (simp add: nuts_iter_def flat_direction nuts_extend_def flat_tree_1 nuts_select_def rand_def
        Let_def del: build_tree.simps)
     (simp add: flat_at_def flat_State_def vsub_def dot_def vsum_def minus_float64_def)

lemma flat_start:
  "(n_compute_grad (flat_nuts d) (flat_State [Fin 0]))\<lparr>momentum := [Fin 1]\<rparr> = flat_at 0"
  by (simp add: flat_nuts_def flat_at_def)

lemma flat_f:
  "log_probability (flat_at 0) - Fin (1/2) * dot [Fin 1] (cov_apply (n_cov (flat_nuts d)) [Fin 1])
     = Fin (- (1/2))"
  by (simp add: flat_nuts_def flat_at_def flat_State_def lnprob_def dot_def vsum_def
      minus_float64_def)

lemma flat_call_1:
  "nuts_call (flat_nuts 1) (flat_State [Fin 0], [Fin 1]) (1/2 ## 3/4 ## r ## g)
     = Inr ((((if r < 1 then (flat_at 1)\<lparr>accepted := True\<rparr> else flat_at 0))\<lparr>nuts_steps := Some 0\<rparr>,
             MInf), g)"
proof -
  have d: "n_max_depth (flat_nuts d) = d" "n_compute_lp (flat_nuts d) = (\<lambda>s. s)" for d
    by (simp_all add: flat_nuts_def)
  show ?thesis
    by (simp add: nuts_call_def flat_start flat_f flat_uniform d flat_iter_0 Let_def
        del: fexp.simps)
qed

lemma flat_call_2:
  "nuts_call (flat_nuts 2) (flat_State [Fin 0], [Fin 1])
       (1/2 ## 3/4 ## 1/4 ## 3/4 ## 1/4 ## 1/4 ## g)
     = Inr (((flat_at 2)\<lparr>accepted := True, nuts_steps := Some 1\<rparr>, MInf), g)"
proof -
  have d: "n_max_depth (flat_nuts 2) = Suc (Suc 0)" "n_compute_lp (flat_nuts 2) = (\<lambda>s. s)"
    by (simp_all add: flat_nuts_def)
  show ?thesis
    by (simp add: nuts_call_def flat_start flat_f flat_uniform d flat_iter_0 flat_iter_1 Let_def
        del: fexp.simps)
qed


text \<open>
  C4. With \<open>max_depth > 0\<close> the call returns, and the factor it returns is \<open>-inf\<close>, an
  infinite value. With this factor the acceptance test of \<open>HamiltonianMove.update\<close> holds
  for no uniform and no log-probabilities (\<open>-inf + new - old\<close> is \<open>-inf\<close> or NaN), so it
  leaves the returned state as it is, with the \<open>accepted\<close> flag the no-U-turn loop gave it.
\<close>

theorem nuts_factor_never_overrides:
  "(0 < n_max_depth W \<longrightarrow> (\<exists>st g'. nuts_call W args g = Inr ((st, MInf), g'))) \<and>
   (nuts_call W args g = Inr ((st, factor), g') \<longrightarrow>
      factor = MInf \<and> \<not> isfinite factor \<and> (\<forall>old u. hmc_accept factor st old u = st))"
proof (intro conjI impI)
  assume "0 < n_max_depth W"
  then obtain k where "n_max_depth W = Suc k" by (cases "n_max_depth W") auto
  then show "\<exists>st g'. nuts_call W args g = Inr ((st, MInf), g')"
    by (auto simp: nuts_call_def Let_def split: prod.splits)
next
  assume r: "nuts_call W args g = Inr ((st, factor), g')"
  then show f: "factor = MInf"
    by (auto simp: nuts_call_def Let_def split: prod.splits nat.splits)
  then show "\<not> isfinite factor" by simp
  show "\<forall>old u. hmc_accept factor st old u = st"
    using f by (simp add: hmc_accept_MInf)
qed

theorem nuts_factor_never_overrides_witness:
  "nuts_call (flat_nuts 1) (flat_State [Fin 0], [Fin 1]) (1/2 ## 3/4 ## 1/4 ## sconst 0)
     = Inr (((flat_at 1)\<lparr>accepted := True, nuts_steps := Some 0\<rparr>, MInf), sconst 0) \<and>
   hmc_accept MInf ((flat_at 1)\<lparr>accepted := True, nuts_steps := Some 0\<rparr>) (Fin 0) (Fin (1/2))
     = (flat_at 1)\<lparr>accepted := True, nuts_steps := Some 0\<rparr>"
proof -
  have c: "nuts_call (flat_nuts 1) (flat_State [Fin 0], [Fin 1]) (1/2 ## 3/4 ## 1/4 ## sconst 0)
     = Inr (((flat_at 1)\<lparr>accepted := True, nuts_steps := Some 0\<rparr>, MInf), sconst 0)"
    using flat_call_1 [of "1/4" "sconst 0"] by simp
  show ?thesis
    using c nuts_factor_never_overrides
      [of "flat_nuts 1" "(flat_State [Fin 0], [Fin 1])" "1/2 ## 3/4 ## 1/4 ## sconst 0"
          "(flat_at 1)\<lparr>accepted := True, nuts_steps := Some 0\<rparr>" MInf "sconst 0"]
    by blast
qed

lemma nuts_iter_count:
  "nuts_iter W u j (state_minus, state_plus, st, n, g) = ((sm', sp', st', n', g'), brk)
     \<Longrightarrow> n \<le> n'"
  by (auto simp: nuts_iter_def Let_def split: prod.splits)

lemma nuts_select_true:
  "0 < n \<Longrightarrow> fst (nuts_select True n_pr n g) = (shd g < real n_pr / real n)"
  by (simp add: nuts_select_def rand_def)

text \<open>
  C2, as amended. In an iteration of the loop with old count \<open>n > 0\<close>, in which the new
  subtree has the proposal \<open>state_pr\<close>, the count \<open>n_pr\<close> and the flag \<open>s\<close>, the state is
  replaced by \<open>state_pr\<close> (marked accepted) exactly when \<open>s\<close> holds and the uniform drawn is
  below \<open>n_pr / n\<close>, and the count becomes \<open>n + n_pr\<close>. So with \<open>s\<close> true the uniforms of
  \<open>[0, 1)\<close> that replace the state are those of \<open>[0, min 1 (n_pr / n))\<close>: the probability
  is \<open>min 1 (new_count / old_count)\<close>. With \<open>s\<close> false the state is never replaced.
\<close>

theorem nuts_replacement_rule:
  assumes "0 < n"
    and "nuts_direction g = (v, g1)"
    and "nuts_extend W u v j state_minus state_plus g1 = ((sm', sp', state_pr, n_pr, s), g2)"
  shows "(\<exists>g3 brk. nuts_iter W u j (state_minus, state_plus, st, n, g)
            = ((sm', sp',
                (if s \<and> shd g2 < real n_pr / real n then state_pr\<lparr>accepted := True\<rparr> else st),
                n + n_pr, g3), brk)) \<and>
         {r. 0 \<le> r \<and> r < 1 \<and> fst (nuts_select True n_pr n (r ## g2))}
            = {r. 0 \<le> r \<and> r < min 1 (real n_pr / real n)} \<and>
         fst (nuts_select False n_pr n g2) = False"
proof (intro conjI)
  show "\<exists>g3 brk. nuts_iter W u j (state_minus, state_plus, st, n, g)
            = ((sm', sp',
                (if s \<and> shd g2 < real n_pr / real n then state_pr\<lparr>accepted := True\<rparr> else st),
                n + n_pr, g3), brk)"
  proof (cases s)
    case True
    then show ?thesis
      using assms by (simp add: nuts_iter_def nuts_select_def rand_def Let_def)
  next
    case False
    then show ?thesis
      using assms by (auto simp: nuts_iter_def nuts_select_def Let_def)
  qed
  show "{r. 0 \<le> r \<and> r < 1 \<and> fst (nuts_select True n_pr n (r ## g2))}
            = {r. 0 \<le> r \<and> r < min 1 (real n_pr / real n)}"
    using assms(1) by (auto simp: nuts_select_true)
  show "fst (nuts_select False n_pr n g2) = False"
    by (simp add: nuts_select_def)
qed

theorem nuts_replacement_rule_witness:
  "\<exists>g3 brk. nuts_iter (flat_nuts 1) example_u 0
       (flat_at 0, flat_at 0, flat_at 0, 1, 3/4 ## 1/4 ## sconst 0)
     = ((flat_at 0, flat_at 1, (flat_at 1)\<lparr>accepted := True\<rparr>, 2, g3), brk)"
proof -
  have e: "nuts_extend (flat_nuts 1) example_u (Fin 1) 0 (flat_at 0) (flat_at 0) (1/4 ## sconst 0)
      = ((flat_at 0, flat_at 1, flat_at 1, 1, True), 1/4 ## sconst 0)"
    by (simp add: nuts_extend_def flat_tree_0 del: build_tree.simps)
  have n: "(0::nat) < 1" by simp
  show ?thesis
    using nuts_replacement_rule [OF n flat_direction e, of "flat_at 0"]
    by (simp add: numeral_2_eq_2)
qed

text \<open>
  C2 as stated fails. In the first iteration on the flat model the old count is 1, the new
  subtree has count 1 and \<open>s\<close> true, and with the uniform \<open>3/4\<close> the state is replaced,
  although \<open>3/4\<close> is not below \<open>new_count / (old_count + new_count) = 1/2\<close>.
\<close>

theorem nuts_replacement_counterexample:
  "nuts_extend (flat_nuts 1) example_u (Fin 1) 0 (flat_at 0) (flat_at 0) (3/4 ## sconst 0)
     = ((flat_at 0, flat_at 1, flat_at 1, 1, True), 3/4 ## sconst 0) \<and>
   nuts_call (flat_nuts 1) (flat_State [Fin 0], [Fin 1]) (1/2 ## 3/4 ## 3/4 ## sconst 0)
     = Inr (((flat_at 1)\<lparr>accepted := True, nuts_steps := Some 0\<rparr>, MInf), sconst 0) \<and>
   accepted (flat_State [Fin 0]) = False \<and>
   \<not> ((3/4 :: real) < real 1 / real (1 + 1))"
proof -
  have e: "nuts_extend (flat_nuts 1) example_u (Fin 1) 0 (flat_at 0) (flat_at 0) (3/4 ## sconst 0)
     = ((flat_at 0, flat_at 1, flat_at 1, 1, True), 3/4 ## sconst 0)"
    by (simp add: nuts_extend_def flat_tree_0 del: build_tree.simps)
  have c: "nuts_call (flat_nuts 1) (flat_State [Fin 0], [Fin 1]) (1/2 ## 3/4 ## 3/4 ## sconst 0)
     = Inr (((flat_at 1)\<lparr>accepted := True, nuts_steps := Some 0\<rparr>, MInf), sconst 0)"
    using flat_call_1 [of "3/4" "sconst 0"] by simp
  show ?thesis
    using e c by (simp add: flat_State_def)
qed

text \<open>
  For a direction \<open>v\<close> that is not negative, the extension of the trajectory does not read
  \<open>state_plus\<close>: the new subtree starts at \<open>state_minus\<close>.
\<close>

lemma nuts_extend_forward_ignores_plus:
  "\<not> v < Fin 0 \<Longrightarrow>
     nuts_extend W u v j state_minus state_plus g = nuts_extend W u v j state_minus state_plus' g"
  by (simp add: nuts_extend_def)

text \<open>
  C3 fails on the forward direction. On the flat model with momentum 1 and two doublings,
  both forward, the first doubling moves the plus edge to coordinate 1. The second builds
  its tree of depth 1 from the minus edge (coordinate 0): it visits 1 and 2, the plus edge
  becomes 2 and the state returned is at 2. Built from the plus edge, the tree visits 2
  and 3.
\<close>

theorem nuts_forward_tree_from_minus_edge:
  "nuts_call (flat_nuts 2) (flat_State [Fin 0], [Fin 1])
       (1/2 ## 3/4 ## 1/4 ## 3/4 ## 1/4 ## 1/4 ## sconst 0)
     = Inr (((flat_at 2)\<lparr>accepted := True, nuts_steps := Some 1\<rparr>, MInf), sconst 0) \<and>
   fst (nuts_iter (flat_nuts 2) example_u 1
          (flat_at 0, flat_at 1, (flat_at 1)\<lparr>accepted := True\<rparr>, 2, 3/4 ## 1/4 ## 1/4 ## sconst 0))
     = (flat_at 0, flat_at 2, (flat_at 2)\<lparr>accepted := True\<rparr>, 4, sconst 0) \<and>
   fst (build_tree (flat_nuts 2) (flat_at 0) example_u (Fin 1) 1 (1/4 ## sconst 0))
     = (flat_at 1, flat_at 2, flat_at 2, 2, True) \<and>
   fst (build_tree (flat_nuts 2) (flat_at 1) example_u (Fin 1) 1 (1/4 ## sconst 0))
     = (flat_at 2, flat_at 3, flat_at 3, 2, True)"
proof -
  have c: "nuts_call (flat_nuts 2) (flat_State [Fin 0], [Fin 1])
       (1/2 ## 3/4 ## 1/4 ## 3/4 ## 1/4 ## 1/4 ## sconst 0)
     = Inr (((flat_at 2)\<lparr>accepted := True, nuts_steps := Some 1\<rparr>, MInf), sconst 0)"
    using flat_call_2 [of "sconst 0"] by simp
  have i: "fst (nuts_iter (flat_nuts 2) example_u 1
          (flat_at 0, flat_at 1, (flat_at 1)\<lparr>accepted := True\<rparr>, 2, 3/4 ## 1/4 ## 1/4 ## sconst 0))
     = (flat_at 0, flat_at 2, (flat_at 2)\<lparr>accepted := True\<rparr>, 4, sconst 0)"
    using flat_iter_1 [of 2 "(flat_at 1)\<lparr>accepted := True\<rparr>" "1/4" "1/4" "sconst 0"] by simp
  have t0: "fst (build_tree (flat_nuts 2) (flat_at 0) example_u (Fin 1) 1 (1/4 ## sconst 0))
     = (flat_at 1, flat_at 2, flat_at 2, 2, True)"
    using flat_tree_1 [of 2 0 "1/4" "sconst 0"] by simp
  have t1: "fst (build_tree (flat_nuts 2) (flat_at 1) example_u (Fin 1) 1 (1/4 ## sconst 0))
     = (flat_at 2, flat_at 3, flat_at 3, 2, True)"
    using flat_tree_1 [of 2 1 "1/4" "sconst 0"] by simp
  show ?thesis
    using c i t0 t1 by blast
qed

end
